theory Spec2Isabelle
  imports Complex_Main "HOL-Library.Word" "HOL-Library.Signed_Division"
    "HOL-Library.While_Combinator" "HOL-Library.Log_Nat"
begin

unbundle bit_operations_syntax

section \<open>Go primitives\<close>

text \<open>
  Go's \<open>int\<close> is a 64-bit two's complement integer on the platforms the program is
  built for: \<open>+\<close>, \<open>-\<close> and \<open>*\<close> wrap around, comparisons are signed, \<open>/\<close> truncates
  towards zero and \<open>%\<close> takes the sign of the dividend.
\<close>

type_synonym go_int = "64 word"

definition go_quo :: "go_int \<Rightarrow> go_int \<Rightarrow> go_int" where
  "go_quo a b = word_of_int (sint a sdiv sint b)"

definition go_rem :: "go_int \<Rightarrow> go_int \<Rightarrow> go_int" where
  "go_rem a b = word_of_int (sint a smod sint b)"

text \<open>
  A call returns a value, panics, or never returns. The panics of the modelled code are
  the explicit \<open>panic(...)\<close> of the source and the run-time panics of the language: an
  index out of range, an integer division by zero, a negative length given to \<open>make\<close>.
\<close>

datatype panic =
    PanicMessage string
  | IndexOutOfRange
  | DivideByZero
  | MakesliceLen

datatype 'a outcome = Returned 'a | Panics panic | Diverges

fun bind_outcome :: "'a outcome \<Rightarrow> ('a \<Rightarrow> 'b outcome) \<Rightarrow> 'b outcome" where
  "bind_outcome (Returned x) f = f x"
| "bind_outcome (Panics p) f = Panics p"
| "bind_outcome Diverges f = Diverges"

fun is_Returned :: "'a outcome \<Rightarrow> bool" where
  "is_Returned (Returned x) = True"
| "is_Returned r = False"

text \<open>
  The loop \<open>for v := a; cond(v); v = next(v) { body }\<close> over a state: it stops when the
  condition fails or the body panics, and may run forever.
\<close>

definition for_loop ::
  "go_int \<Rightarrow> (go_int \<Rightarrow> bool) \<Rightarrow> (go_int \<Rightarrow> go_int) \<Rightarrow> (go_int \<Rightarrow> 's \<Rightarrow> 's outcome) \<Rightarrow> 's
     \<Rightarrow> 's outcome" where
  "for_loop a cond next body st =
     (case while_option (\<lambda>(v, r). is_Returned r \<and> cond v)
                        (\<lambda>(v, r). (next v, bind_outcome r (body v)))
                        (a, Returned st) of
        None \<Rightarrow> Diverges
      | Some (v, r) \<Rightarrow> r)"

text \<open>The values \<open>0, 1, ..., n - 1\<close> of a loop \<open>for i := 0; i < n; i++\<close>.\<close>

definition upto_int :: "go_int \<Rightarrow> go_int list" where
  "upto_int n = map of_nat [0..<nat (sint n)]"

section \<open>Package hex: coordinates\<close>

record AxialCoord =
  Q :: go_int
  R :: go_int

definition NewAxialCoord :: "go_int \<Rightarrow> go_int \<Rightarrow> AxialCoord" where
  "NewAxialCoord q r = \<lparr>Q = q, R = r\<rparr>"

definition ToOffset :: "AxialCoord \<Rightarrow> go_int \<times> go_int" where
  "ToOffset c = (Q c, R c + go_quo (Q c + (Q c AND 1)) 2)"

definition OffsetToAxial :: "go_int \<Rightarrow> go_int \<Rightarrow> AxialCoord" where
  "OffsetToAxial col row = \<lparr>Q = col, R = row - go_quo (col + (col AND 1)) 2\<rparr>"

section \<open>Package hex: grid and topology\<close>

datatype Topology = TopologyRegion | TopologyWorld

record GridConfig =
  Width :: go_int
  Height :: go_int
  Topology :: Topology

text \<open>
  The grid's per-cell slot holds an untyped value (\<open>interface{}\<close>, \<open>nil\<close> when unset): the
  payload type is a parameter. \<open>coordMap\<close> is a Go \<open>map[AxialCoord]bool\<close>, whose lookup of
  a missing key gives \<open>false\<close>.
\<close>

record 'a Grid =
  config :: GridConfig
  tiles :: "'a option list list"
  coordMap :: "AxialCoord \<Rightarrow> bool"

text \<open>The loops of \<open>NewGrid\<close> that record every offset cell of the grid in the map.\<close>

definition populate_coordMap :: "GridConfig \<Rightarrow> AxialCoord \<Rightarrow> bool" where
  "populate_coordMap cfg =
     foldl (\<lambda>m row. foldl (\<lambda>m col. m(OffsetToAxial col row := True)) m
                        (upto_int (Width cfg)))
           (\<lambda>c. False) (upto_int (Height cfg))"

definition NewGrid :: "GridConfig \<Rightarrow> 'a Grid outcome" where
  "NewGrid cfg =
     (if Height cfg <s 0 then Panics MakesliceLen
      else if 0 <s Height cfg \<and> Width cfg <s 0 then Panics MakesliceLen
      else Returned
        \<lparr>config = cfg,
         tiles = replicate (nat (sint (Height cfg))) (replicate (nat (sint (Width cfg))) None),
         coordMap = populate_coordMap cfg\<rparr>)"

definition WrapCoord :: "'a Grid \<Rightarrow> AxialCoord \<Rightarrow> AxialCoord outcome" where
  "WrapCoord g coord =
     (if Topology (config g) \<noteq> TopologyWorld then Returned coord
      else
        (case ToOffset coord of (col, row) \<Rightarrow>
          if Width (config g) = 0 then Panics DivideByZero
          else
            let col' = go_rem (go_rem col (Width (config g)) + Width (config g)) (Width (config g))
            in if Height (config g) = 0 then Panics DivideByZero
               else
                 let row' = go_rem (go_rem row (Height (config g)) + Height (config g))
                                   (Height (config g))
                 in Returned (OffsetToAxial col' row')))"

definition IsValid :: "'a Grid \<Rightarrow> AxialCoord \<Rightarrow> bool outcome" where
  "IsValid g coord =
     (if Topology (config g) = TopologyWorld
      then bind_outcome (WrapCoord g coord) (\<lambda>wrapped. Returned (coordMap g wrapped))
      else Returned (coordMap g coord))"

definition AllCoords :: "'a Grid \<Rightarrow> AxialCoord list" where
  "AllCoords g =
     concat (map (\<lambda>row. map (\<lambda>col. OffsetToAxial col row) (upto_int (Width (config g))))
                 (upto_int (Height (config g))))"

definition hexDirections :: "AxialCoord list" where
  "hexDirections =
     [\<lparr>Q = 1, R = 0\<rparr>, \<lparr>Q = 1, R = - 1\<rparr>, \<lparr>Q = 0, R = - 1\<rparr>,
      \<lparr>Q = - 1, R = 0\<rparr>, \<lparr>Q = - 1, R = 1\<rparr>, \<lparr>Q = 0, R = 1\<rparr>]"

text \<open>One iteration of the loop of \<open>Neighbors\<close> over a direction.\<close>

definition Neighbors_step ::
  "'a Grid \<Rightarrow> AxialCoord \<Rightarrow> AxialCoord list \<Rightarrow> AxialCoord \<Rightarrow> AxialCoord list outcome" where
  "Neighbors_step grid c neighbors direction =
     (let neighbor = \<lparr>Q = Q c + Q direction, R = R c + R direction\<rparr>
      in if Topology (config grid) = TopologyWorld
         then bind_outcome (WrapCoord grid neighbor)
                (\<lambda>wrapped. Returned (neighbors @ [wrapped]))
         else bind_outcome (IsValid grid neighbor)
                (\<lambda>ok. Returned (if ok then neighbors @ [neighbor] else neighbors)))"

fun Neighbors_loop ::
  "'a Grid \<Rightarrow> AxialCoord \<Rightarrow> AxialCoord list \<Rightarrow> AxialCoord list \<Rightarrow> AxialCoord list outcome" where
  "Neighbors_loop grid c neighbors [] = Returned neighbors"
| "Neighbors_loop grid c neighbors (direction # rest) =
     bind_outcome (Neighbors_step grid c neighbors direction)
       (\<lambda>neighbors'. Neighbors_loop grid c neighbors' rest)"

definition Neighbors :: "AxialCoord \<Rightarrow> 'a Grid \<Rightarrow> AxialCoord list outcome" where
  "Neighbors c grid = Neighbors_loop grid c [] hexDirections"

definition go_abs :: "go_int \<Rightarrow> go_int" where
  "go_abs x = (if x <s 0 then - x else x)"

definition hexDistance :: "AxialCoord \<Rightarrow> AxialCoord \<Rightarrow> go_int" where
  "hexDistance a b =
     go_quo (go_abs (Q a - Q b) + go_abs (Q a + R a - Q b - R b) + go_abs (R a - R b)) 2"

text \<open>
  The body of the inner loop of \<open>DistanceTo\<close>, and the two loops
  \<open>for dq := -1; dq <= 1; dq++\<close> and \<open>for dr := -1; dr <= 1; dr++\<close> over it.
\<close>

definition DistanceTo_body ::
  "AxialCoord \<Rightarrow> AxialCoord \<Rightarrow> GridConfig \<Rightarrow> go_int \<Rightarrow> go_int \<Rightarrow> go_int \<Rightarrow> go_int" where
  "DistanceTo_body c other cfg dq minDist dr =
     (let wrappedOther = \<lparr>Q = Q other + dq * Width cfg, R = R other + dr * Height cfg\<rparr>;
          dist = hexDistance c wrappedOther
      in if dist <s minDist then dist else minDist)"

definition DistanceTo :: "AxialCoord \<Rightarrow> AxialCoord \<Rightarrow> 'a Grid \<Rightarrow> go_int" where
  "DistanceTo c other grid =
     (if Topology (config grid) = TopologyRegion then hexDistance c other
      else foldl (\<lambda>minDist dq. foldl (DistanceTo_body c other (config grid) dq) minDist [- 1, 0, 1])
                 (hexDistance c other) [- 1, 0, 1])"

section \<open>Concrete grids\<close>

text \<open>The grids that \<open>NewGrid\<close> returns for the sizes 5 by 3 and 10 by 8.\<close>

definition grid_5x3 :: "Topology \<Rightarrow> unit Grid" where
  "grid_5x3 t =
     \<lparr>config = \<lparr>Width = 5, Height = 3, Topology = t\<rparr>,
      tiles = replicate 3 (replicate 5 None),
      coordMap = populate_coordMap \<lparr>Width = 5, Height = 3, Topology = t\<rparr>\<rparr>"

definition grid_10x8 :: "Topology \<Rightarrow> unit Grid" where
  "grid_10x8 t =
     \<lparr>config = \<lparr>Width = 10, Height = 8, Topology = t\<rparr>,
      tiles = replicate 8 (replicate 10 None),
      coordMap = populate_coordMap \<lparr>Width = 10, Height = 8, Topology = t\<rparr>\<rparr>"

section \<open>Wrapped replicas of a coordinate\<close>

text \<open>
  The replica of \<open>other\<close> that \<open>DistanceTo\<close> builds for the offsets \<open>dq\<close> and \<open>dr\<close>
  (\<open>wrappedOther\<close> in the source): width and height are added to the axial components.
\<close>

definition axial_shifted :: "AxialCoord \<Rightarrow> GridConfig \<Rightarrow> go_int \<Rightarrow> go_int \<Rightarrow> AxialCoord" where
  "axial_shifted b cfg dq dr = \<lparr>Q = Q b + dq * Width cfg, R = R b + dr * Height cfg\<rparr>"

text \<open>
  The replica as the specification words it: convert to offset coordinates, add
  \<open>dq * width\<close> to the column and \<open>dr * height\<close> to the row, convert back; and the
  specification's World distance, the minimum over the nine replicas.
\<close>

definition spec_shifted :: "AxialCoord \<Rightarrow> GridConfig \<Rightarrow> go_int \<Rightarrow> go_int \<Rightarrow> AxialCoord" where
  "spec_shifted b cfg dq dr =
     (case ToOffset b of (col, row) \<Rightarrow> OffsetToAxial (col + dq * Width cfg) (row + dr * Height cfg))"

definition spec_world_distance :: "AxialCoord \<Rightarrow> AxialCoord \<Rightarrow> GridConfig \<Rightarrow> int" where
  "spec_world_distance a b cfg =
     Min ((\<lambda>(dq, dr). sint (hexDistance a (spec_shifted b cfg dq dr))) ` ({- 1, 0, 1} \<times> {- 1, 0, 1}))"

section \<open>Floating point\<close>

text \<open>
  A \<open>float64\<close> is an IEEE 754 binary64 number, modelled by its value: not-a-number, an
  infinity, or a real number. A finite binary64 number is \<open>m * 2\<^sup>e\<close> with \<open>\<bar>m\<bar> < 2\<^sup>5\<^sup>3\<close> and
  \<open>- 1074 \<le> e \<le> 971\<close>. Every arithmetic operation computes the exact result and rounds
  it to the nearest binary64 number, a tie to the one with the even significand, and to
  an infinity from \<open>2\<^sup>1\<^sup>0\<^sup>2\<^sup>4 - 2\<^sup>9\<^sup>7\<^sup>0\<close> on. The sign of zero is not modelled. The special
  values follow IEEE 754: they arise from a division by zero, from an overflow and from
  \<open>math.Pow\<close> of a negative base, and every comparison with not-a-number is false.
\<close>

datatype f64 = NaN | NegInf | Finite real | PosInf

text \<open>An infinity with the sign of a non-zero real number.\<close>

definition inf_of_sign :: "real \<Rightarrow> f64" where
  "inf_of_sign s = (if s < 0 then NegInf else PosInf)"

text \<open>
  The binade of a non-zero real number \<open>x\<close> is the integer \<open>e\<close> with
  \<open>2\<^sup>e \<le> \<bar>x\<bar> < 2\<^sup>e\<^sup>+\<^sup>1\<close>, computed from the number of bits of an integer.
\<close>

definition binade :: "real \<Rightarrow> int" where
  "binade x =
     (if 1 \<le> \<bar>x\<bar> then bitlen \<lfloor>\<bar>x\<bar>\<rfloor> - 1 else - bitlen (\<lceil>1 / \<bar>x\<bar>\<rceil> - 1))"

text \<open>The nearest integer, a tie to the even one.\<close>

definition round_even :: "real \<Rightarrow> int" where
  "round_even x =
     (let n = \<lfloor>x\<rfloor>;
          d = x - real_of_int n
      in if d < 1 / 2 then n else if 1 / 2 < d then n + 1 else if even n then n else n + 1)"

text \<open>
  Rounding to binary64. The spacing of the binary64 numbers around \<open>x\<close> is
  \<open>2\<^sup>e\<^sup>-\<^sup>5\<^sup>2\<close> for the binade \<open>e\<close> of \<open>x\<close>, and \<open>2\<^sup>-\<^sup>1\<^sup>0\<^sup>7\<^sup>4\<close> below \<open>2\<^sup>-\<^sup>1\<^sup>0\<^sup>2\<^sup>2\<close> (the subnormal
  numbers): \<open>f64_value x\<close> is the multiple of the spacing nearest to \<open>x\<close>, and the result
  of the rounding unless it is out of range.
\<close>

definition f64_value :: "real \<Rightarrow> real" where
  "f64_value x =
     (if x = 0 then 0
      else real_of_int (round_even (x / 2 powi (max (binade x) (- 1022) - 52)))
           * 2 powi (max (binade x) (- 1022) - 52))"

definition round_f64 :: "real \<Rightarrow> f64" where
  "round_f64 x =
     (if 2 ^ 1024 \<le> \<bar>f64_value x\<bar> then inf_of_sign x else Finite (f64_value x))"

fun f_neg :: "f64 \<Rightarrow> f64" where
  "f_neg NaN = NaN"
| "f_neg NegInf = PosInf"
| "f_neg (Finite x) = Finite (- x)"
| "f_neg PosInf = NegInf"

fun f_add :: "f64 \<Rightarrow> f64 \<Rightarrow> f64" where
  "f_add (Finite x) (Finite y) = round_f64 (x + y)"
| "f_add NaN b = NaN"
| "f_add a NaN = NaN"
| "f_add PosInf NegInf = NaN"
| "f_add NegInf PosInf = NaN"
| "f_add PosInf b = PosInf"
| "f_add a PosInf = PosInf"
| "f_add NegInf b = NegInf"
| "f_add a NegInf = NegInf"

definition f_sub :: "f64 \<Rightarrow> f64 \<Rightarrow> f64" where
  "f_sub a b = f_add a (f_neg b)"

fun f_mul :: "f64 \<Rightarrow> f64 \<Rightarrow> f64" where
  "f_mul (Finite x) (Finite y) = round_f64 (x * y)"
| "f_mul NaN b = NaN"
| "f_mul a NaN = NaN"
| "f_mul (Finite x) PosInf = (if x = 0 then NaN else inf_of_sign x)"
| "f_mul (Finite x) NegInf = (if x = 0 then NaN else inf_of_sign (- x))"
| "f_mul PosInf (Finite y) = (if y = 0 then NaN else inf_of_sign y)"
| "f_mul NegInf (Finite y) = (if y = 0 then NaN else inf_of_sign (- y))"
| "f_mul PosInf PosInf = PosInf"
| "f_mul NegInf NegInf = PosInf"
| "f_mul PosInf NegInf = NegInf"
| "f_mul NegInf PosInf = NegInf"

fun f_div :: "f64 \<Rightarrow> f64 \<Rightarrow> f64" where
  "f_div (Finite x) (Finite y) =
     (if y = 0 then (if x = 0 then NaN else inf_of_sign x) else round_f64 (x / y))"
| "f_div NaN b = NaN"
| "f_div a NaN = NaN"
| "f_div (Finite x) PosInf = Finite 0"
| "f_div (Finite x) NegInf = Finite 0"
| "f_div PosInf (Finite y) = inf_of_sign y"
| "f_div NegInf (Finite y) = inf_of_sign (- y)"
| "f_div PosInf PosInf = NaN"
| "f_div PosInf NegInf = NaN"
| "f_div NegInf PosInf = NaN"
| "f_div NegInf NegInf = NaN"

fun f_lt :: "f64 \<Rightarrow> f64 \<Rightarrow> bool" where
  "f_lt (Finite x) (Finite y) = (x < y)"
| "f_lt NaN b = False"
| "f_lt a NaN = False"
| "f_lt NegInf NegInf = False"
| "f_lt NegInf b = True"
| "f_lt a NegInf = False"
| "f_lt PosInf b = False"
| "f_lt a PosInf = True"

definition f_le :: "f64 \<Rightarrow> f64 \<Rightarrow> bool" where
  "f_le a b = (f_lt a b \<or> (a = b \<and> a \<noteq> NaN))"

definition f_gt :: "f64 \<Rightarrow> f64 \<Rightarrow> bool" where
  "f_gt a b = f_lt b a"

definition f_ge :: "f64 \<Rightarrow> f64 \<Rightarrow> bool" where
  "f_ge a b = f_le b a"

text \<open>The conversion \<open>float64(i)\<close> of an \<open>int\<close>.\<close>

definition f_of_int :: "go_int \<Rightarrow> f64" where
  "f_of_int i = round_f64 (real_of_int (sint i))"

text \<open>
  The conversion \<open>int(x)\<close> of a \<open>float64\<close> truncates towards zero. For a value that does
  not fit the language leaves the result to the implementation: the model takes the
  smallest integer, which is what the amd64 conversion instruction gives.
\<close>

definition truncate_real :: "real \<Rightarrow> int" where
  "truncate_real x = (if 0 \<le> x then \<lfloor>x\<rfloor> else \<lceil>x\<rceil>)"

definition f_to_int :: "f64 \<Rightarrow> go_int" where
  "f_to_int a =
     (case a of
        Finite x \<Rightarrow>
          if - (2 ^ 63) \<le> truncate_real x \<and> truncate_real x < 2 ^ 63
          then word_of_int (truncate_real x) else word_of_int (- (2 ^ 63))
      | _ \<Rightarrow> word_of_int (- (2 ^ 63)))"

text \<open>\<open>math.Round\<close> rounds half away from zero; \<open>math.Abs\<close>.\<close>

definition round_half_away :: "real \<Rightarrow> int" where
  "round_half_away x = (if 0 \<le> x then \<lfloor>x + 1 / 2\<rfloor> else - \<lfloor>- x + 1 / 2\<rfloor>)"

fun math_Round :: "f64 \<Rightarrow> f64" where
  "math_Round (Finite x) = Finite (real_of_int (round_half_away x))"
| "math_Round a = a"

fun math_Abs :: "f64 \<Rightarrow> f64" where
  "math_Abs (Finite x) = Finite \<bar>x\<bar>"
| "math_Abs NaN = NaN"
| "math_Abs a = PosInf"

text \<open>
  \<open>math.Pow(x, y)\<close> for a finite exponent \<open>y\<close> (the source passes the constants 3 and
  2.5), with the special cases the package documents: the result is 1 for \<open>y = 0\<close>,
  not-a-number for a negative base and a non-integer exponent, and an infinite base is
  treated as the reciprocal of a zero. The function belongs to the standard library, not
  to the repository; the model takes the power rounded to binary64, from which the
  library's result can differ in the last place.
\<close>

definition is_integer :: "real \<Rightarrow> bool" where
  "is_integer y = (real_of_int \<lfloor>y\<rfloor> = y)"

definition math_Pow :: "f64 \<Rightarrow> real \<Rightarrow> f64" where
  "math_Pow a y =
     (if y = 0 then Finite 1
      else case a of
        NaN \<Rightarrow> NaN
      | Finite x \<Rightarrow>
          if 0 < x then round_f64 (x powr y)
          else if x = 0 then (if 0 < y then Finite 0 else PosInf)
          else if is_integer y then round_f64 (x powi \<lfloor>y\<rfloor>) else NaN
      | PosInf \<Rightarrow> if 0 < y then PosInf else Finite 0
      | NegInf \<Rightarrow>
          if 0 < y then (if is_integer y \<and> odd \<lfloor>y\<rfloor> then NegInf else PosInf)
          else Finite 0)"

section \<open>Slices\<close>

text \<open>\<open>len\<close> of a slice, and an indexed read, which panics outside the slice.\<close>

definition len :: "'a list \<Rightarrow> go_int" where
  "len xs = of_nat (length xs)"

definition index :: "'a list \<Rightarrow> go_int \<Rightarrow> 'a outcome" where
  "index xs i =
     (if 0 \<le> sint i \<and> sint i < int (length xs) then Returned (xs ! nat (sint i))
      else Panics IndexOutOfRange)"

text \<open>A loop that builds a slice element by element and stops at the first panic.\<close>

fun map_outcome :: "('a \<Rightarrow> 'b outcome) \<Rightarrow> 'a list \<Rightarrow> 'b list outcome" where
  "map_outcome f [] = Returned []"
| "map_outcome f (x # xs) =
     bind_outcome (f x) (\<lambda>y. bind_outcome (map_outcome f xs) (\<lambda>ys. Returned (y # ys)))"

section \<open>Package terrain: tiles\<close>

record HexTile =
  Coordinates :: AxialCoord
  Elevation :: f64
  IsLand :: bool
  DistanceToWater :: f64

definition ClassifyLandWater :: "HexTile \<Rightarrow> f64 \<Rightarrow> HexTile" where
  "ClassifyLandWater ht seaLevel = ht\<lparr>IsLand := f_gt (Elevation ht) seaLevel\<rparr>"

text \<open>The body of the loop of \<open>HeightmapToHexTiles\<close> for one coordinate.\<close>

definition HeightmapToHexTiles_body ::
  "f64 list list \<Rightarrow> go_int \<Rightarrow> go_int \<Rightarrow> f64 \<Rightarrow> AxialCoord \<Rightarrow> HexTile outcome" where
  "HeightmapToHexTiles_body heightmap width height seaLevel coord =
     (case ToOffset coord of (col, row) \<Rightarrow>
        if width = 0 then Panics DivideByZero
        else if height = 0 then Panics DivideByZero
        else
          let x = go_rem col width;
              y = go_rem row height;
              x = (if x <s 0 then x + width else x);
              y = (if y <s 0 then y + height else y)
          in bind_outcome (index heightmap y) (\<lambda>line.
             bind_outcome (index line x) (\<lambda>elevation.
               Returned (ClassifyLandWater
                 \<lparr>Coordinates = coord, Elevation = elevation, IsLand = False,
                  DistanceToWater = Finite 0\<rparr> seaLevel))))"

definition HeightmapToHexTiles :: "f64 list list \<Rightarrow> 'a Grid \<Rightarrow> f64 \<Rightarrow> HexTile list outcome" where
  "HeightmapToHexTiles heightmap grid seaLevel =
     (let coords = AllCoords grid;
          height = len heightmap;
          width = (if 0 <s height then len (hd heightmap) else 0)
      in map_outcome (HeightmapToHexTiles_body heightmap width height seaLevel) coords)"

section \<open>Package terrain: hypsometric curve\<close>

text \<open>
  \<open>sort.Float64s\<close> sorts in increasing order with not-a-number before every other value.
  The sorted slice is determined by that order; it is built here by insertion.
\<close>

definition Float64Slice_Less :: "f64 \<Rightarrow> f64 \<Rightarrow> bool" where
  "Float64Slice_Less a b = (f_lt a b \<or> (a = NaN \<and> b \<noteq> NaN))"

fun insert_f64 :: "f64 \<Rightarrow> f64 list \<Rightarrow> f64 list" where
  "insert_f64 a [] = [a]"
| "insert_f64 a (b # bs) =
     (if Float64Slice_Less b a then b # insert_f64 a bs else a # b # bs)"

definition Float64s :: "f64 list \<Rightarrow> f64 list" where
  "Float64s xs = foldr insert_f64 xs []"

text \<open>The transformation of one cell, the body of the inner loop.\<close>

definition hypsometric_cell :: "f64 \<Rightarrow> f64 \<Rightarrow> f64" where
  "hypsometric_cell seaLevelThreshold originalElev =
     (if f_le originalElev seaLevelThreshold
      then
        let ratio = f_div originalElev seaLevelThreshold;
            ratio = (if f_lt ratio (Finite 0) then Finite 0 else ratio);
            depth = f_mul (math_Pow ratio 3) (Finite 6000)
        in f_neg depth
      else
        let ratio = f_div (f_sub originalElev seaLevelThreshold)
                          (f_sub (Finite 1) seaLevelThreshold);
            ratio = (if f_gt ratio (Finite 1) then Finite 1 else ratio);
            height = f_mul (math_Pow ratio (5 / 2)) (Finite 8800)
        in height)"

text \<open>
  The index of the threshold in the sorted elevations,
  \<open>int(float64(len(elevations)) * (1.0 - targetLandRatio))\<close>, lowered to the last index
  when it is beyond it.
\<close>

definition seaLevelIndex :: "f64 list \<Rightarrow> f64 \<Rightarrow> go_int" where
  "seaLevelIndex elevations targetLandRatio =
     (let seaLevelIndex =
            f_to_int (f_mul (f_of_int (len elevations)) (f_sub (Finite 1) targetLandRatio))
      in if len elevations \<le>s seaLevelIndex then len elevations - 1 else seaLevelIndex)"

definition ApplyHypsometricCurve :: "f64 list list \<Rightarrow> f64 \<Rightarrow> f64 list list outcome" where
  "ApplyHypsometricCurve heightmap targetLandRatio =
     (if f_le targetLandRatio (Finite 0) \<or> f_ge targetLandRatio (Finite 1)
      then Returned heightmap
      else
        let elevations = Float64s (concat heightmap)
        in bind_outcome (index elevations (seaLevelIndex elevations targetLandRatio))
             (\<lambda>seaLevelThreshold.
                Returned (map (map (hypsometric_cell seaLevelThreshold)) heightmap)))"

text \<open>The number of cells of a heightmap with a value above zero.\<close>

definition land_cells :: "f64 list list \<Rightarrow> nat" where
  "land_cells heightmap = length (filter (\<lambda>v. f_gt v (Finite 0)) (concat heightmap))"

text \<open>A \<open>float64\<close> that is a number, or the positive infinity, and at least \<open>c\<close>.\<close>

fun at_least :: "real \<Rightarrow> f64 \<Rightarrow> bool" where
  "at_least c (Finite y) = (c \<le> y)"
| "at_least c PosInf = True"
| "at_least c a = False"

section \<open>Package noise\<close>

text \<open>
  The generator \<open>rand.New(rand.NewSource(seed))\<close> of the standard library is not part of
  the repository: it is a parameter \<open>src\<close> of the model, which gives for a seed the
  sequence of values in \<open>[0, 1)\<close> that successive calls of \<open>Float64\<close> return. A generator
  in use is that sequence together with the number of values drawn so far.
\<close>

type_synonym rand_source = "go_int \<Rightarrow> nat \<Rightarrow> real"

definition Float64 :: "(nat \<Rightarrow> real) \<Rightarrow> nat \<Rightarrow> f64 \<times> nat" where
  "Float64 rng drawn = (Finite (rng drawn), Suc drawn)"

text \<open>A read \<open>heightmap[y][x]\<close> and a write \<open>heightmap[y][x] = v\<close> of a two-dimensional slice.\<close>

definition load :: "f64 list list \<Rightarrow> go_int \<Rightarrow> go_int \<Rightarrow> f64 outcome" where
  "load heightmap y x = bind_outcome (index heightmap y) (\<lambda>line. index line x)"

definition store :: "f64 list list \<Rightarrow> go_int \<Rightarrow> go_int \<Rightarrow> f64 \<Rightarrow> f64 list list outcome" where
  "store heightmap y x v =
     bind_outcome (index heightmap y) (\<lambda>line.
       if 0 \<le> sint x \<and> sint x < int (length line)
       then Returned (heightmap[nat (sint y) := line[nat (sint x) := v]])
       else Panics IndexOutOfRange)"

text \<open>A loop \<open>for _, x := range xs\<close> over a state, stopping at the first panic.\<close>

fun range_loop :: "('s \<Rightarrow> 'a \<Rightarrow> 's outcome) \<Rightarrow> 's \<Rightarrow> 'a list \<Rightarrow> 's outcome" where
  "range_loop body st [] = Returned st"
| "range_loop body st (x # xs) = bind_outcome (body st x) (\<lambda>st'. range_loop body st' xs)"

definition isPowerOfTwoPlusOne :: "go_int \<Rightarrow> bool" where
  "isPowerOfTwoPlusOne n =
     (if n <s 3 then False
      else let n = n - 1 in 0 <s n \<and> n AND (n - 1) = 0)"

definition nextPowerOfTwoPlusOne :: "go_int \<Rightarrow> go_int outcome" where
  "nextPowerOfTwoPlusOne sz =
     (if sz \<le>s 1 then Returned 3
      else if isPowerOfTwoPlusOne sz then Returned sz
      else case while_option (\<lambda>n. n + 1 <s sz) (\<lambda>n. n * 2) 2 of
             None \<Rightarrow> Diverges
           | Some n \<Rightarrow> Returned (n + 1))"

definition go_max :: "go_int \<Rightarrow> go_int \<Rightarrow> go_int" where
  "go_max a b = (if b <s a then a else b)"

text \<open>The body of the loop of \<open>diamondAverage\<close> over the four neighbours.\<close>

definition diamondAverage_body ::
  "f64 list list \<Rightarrow> go_int \<Rightarrow> go_int \<times> f64 \<Rightarrow> go_int \<times> go_int \<Rightarrow> (go_int \<times> f64) outcome" where
  "diamondAverage_body heightmap sz st neighbor =
     (case st of (count, summed) \<Rightarrow>
      case neighbor of (nx, ny) \<Rightarrow>
        let nx = (if nx <s 0 then sz - 1 else if sz \<le>s nx then 0 else nx);
            ny = (if ny <s 0 then sz - 1 else if sz \<le>s ny then 0 else ny)
        in if 0 \<le>s nx \<and> nx <s sz \<and> 0 \<le>s ny \<and> ny <s sz
           then bind_outcome (load heightmap ny nx) (\<lambda>v. Returned (count + 1, f_add summed v))
           else Returned (count, summed))"

definition diamondAverage ::
  "f64 list list \<Rightarrow> go_int \<Rightarrow> go_int \<Rightarrow> go_int \<Rightarrow> go_int \<Rightarrow> f64 outcome" where
  "diamondAverage heightmap x y halfStep sz =
     bind_outcome
       (range_loop (diamondAverage_body heightmap sz) (0, Finite 0)
          [(x, y - halfStep), (x, y + halfStep), (x - halfStep, y), (x + halfStep, y)])
       (\<lambda>(count, summed).
          Returned (if 0 <s count then f_div summed (f_of_int count) else Finite 0))"

text \<open>The random offset \<open>(rng.Float64()*2 - 1) * scale\<close> added to an average.\<close>

definition displaced :: "f64 \<Rightarrow> f64 \<Rightarrow> f64 \<Rightarrow> f64" where
  "displaced avg r scale = f_add avg (f_mul (f_sub (f_mul r (Finite 2)) (Finite 1)) scale)"

text \<open>
  The bodies of the inner loops of the diamond step and of the square step. The state is
  the heightmap and the number of values drawn from the generator.
\<close>

definition diamond_cell ::
  "(nat \<Rightarrow> real) \<Rightarrow> f64 \<Rightarrow> go_int \<Rightarrow> go_int \<Rightarrow> go_int \<Rightarrow> f64 list list \<times> nat
     \<Rightarrow> (f64 list list \<times> nat) outcome" where
  "diamond_cell rng scale halfStep y x st =
     (case st of (heightmap, drawn) \<Rightarrow>
        bind_outcome (load heightmap (y - halfStep) (x - halfStep)) (\<lambda>tl.
        bind_outcome (load heightmap (y - halfStep) (x + halfStep)) (\<lambda>tr.
        bind_outcome (load heightmap (y + halfStep) (x - halfStep)) (\<lambda>bl.
        bind_outcome (load heightmap (y + halfStep) (x + halfStep)) (\<lambda>br.
          let avg = f_div (f_add (f_add (f_add tl tr) bl) br) (Finite 4)
          in case Float64 rng drawn of (r, drawn') \<Rightarrow>
               bind_outcome (store heightmap y x (displaced avg r scale))
                 (\<lambda>heightmap'. Returned (heightmap', drawn')))))))"

definition square_cell ::
  "(nat \<Rightarrow> real) \<Rightarrow> f64 \<Rightarrow> go_int \<Rightarrow> go_int \<Rightarrow> go_int \<Rightarrow> go_int \<Rightarrow> f64 list list \<times> nat
     \<Rightarrow> (f64 list list \<times> nat) outcome" where
  "square_cell rng scale halfStep sz y x st =
     (case st of (heightmap, drawn) \<Rightarrow>
        bind_outcome (diamondAverage heightmap x y halfStep sz) (\<lambda>avg.
          case Float64 rng drawn of (r, drawn') \<Rightarrow>
            bind_outcome (store heightmap y x (displaced avg r scale))
              (\<lambda>heightmap'. Returned (heightmap', drawn'))))"

text \<open>One round of the loop \<open>for stepSize > 1\<close>: the diamond step, then the square step.\<close>

definition DiamondSquare_round ::
  "(nat \<Rightarrow> real) \<Rightarrow> go_int \<Rightarrow> go_int \<Rightarrow> f64 \<Rightarrow> f64 list list \<times> nat
     \<Rightarrow> (f64 list list \<times> nat) outcome" where
  "DiamondSquare_round rng sz stepSize scale st =
     (let halfStep = go_quo stepSize 2
      in bind_outcome
           (for_loop halfStep (\<lambda>y. y <s sz) (\<lambda>y. y + stepSize)
              (\<lambda>y. for_loop halfStep (\<lambda>x. x <s sz) (\<lambda>x. x + stepSize)
                      (diamond_cell rng scale halfStep y)) st)
           (for_loop 0 (\<lambda>y. y <s sz) (\<lambda>y. y + halfStep)
              (\<lambda>y. for_loop (go_rem (y + halfStep) stepSize) (\<lambda>x. x <s sz) (\<lambda>x. x + stepSize)
                      (square_cell rng scale halfStep sz y))))"

definition DiamondSquare_corners ::
  "(nat \<Rightarrow> real) \<Rightarrow> go_int \<Rightarrow> f64 list list \<Rightarrow> (f64 list list \<times> nat) outcome" where
  "DiamondSquare_corners rng sz heightmap =
     (case Float64 rng 0 of (r0, d1) \<Rightarrow>
      bind_outcome (store heightmap 0 0 (f_sub (f_mul r0 (Finite 2)) (Finite 1))) (\<lambda>h1.
      case Float64 rng d1 of (r1, d2) \<Rightarrow>
      bind_outcome (store h1 0 (sz - 1) (f_sub (f_mul r1 (Finite 2)) (Finite 1))) (\<lambda>h2.
      case Float64 rng d2 of (r2, d3) \<Rightarrow>
      bind_outcome (store h2 (sz - 1) 0 (f_sub (f_mul r2 (Finite 2)) (Finite 1))) (\<lambda>h3.
      case Float64 rng d3 of (r3, d4) \<Rightarrow>
      bind_outcome (store h3 (sz - 1) (sz - 1) (f_sub (f_mul r3 (Finite 2)) (Finite 1)))
        (\<lambda>h4. Returned (h4, d4))))))"

definition size_message :: string where
  "size_message = ''DiamondSquare: size must be (2^n + 1), e.g., 129, 257, 513''"

definition DiamondSquare :: "rand_source \<Rightarrow> go_int \<Rightarrow> f64 \<Rightarrow> go_int \<Rightarrow> f64 list list outcome" where
  "DiamondSquare src sz roughness seed =
     (if \<not> isPowerOfTwoPlusOne sz then Panics (PanicMessage size_message)
      else
        let rng = src seed;
            heightmap = replicate (nat (sint sz)) (replicate (nat (sint sz)) (Finite 0))
        in case while_option
                  (\<lambda>(stepSize, scale, r). is_Returned r \<and> 1 <s stepSize)
                  (\<lambda>(stepSize, scale, r).
                     (go_quo stepSize 2, f_mul scale roughness,
                      bind_outcome r (DiamondSquare_round rng sz stepSize scale)))
                  (sz - 1, roughness, DiamondSquare_corners rng sz heightmap) of
             None \<Rightarrow> Diverges
           | Some (stepSize, scale, r) \<Rightarrow> bind_outcome r (\<lambda>(heightmap, drawn). Returned heightmap))"

text \<open>The body of the two inner loops of \<open>MultiOctaveNoise\<close> that add an octave.\<close>

definition octave_cell ::
  "f64 list list \<Rightarrow> go_int \<Rightarrow> f64 \<Rightarrow> f64 \<Rightarrow> go_int \<Rightarrow> go_int \<Rightarrow> f64 list list
     \<Rightarrow> f64 list list outcome" where
  "octave_cell octaveNoise noiseSize amplitude frequency y x result =
     (let noiseX = go_rem (f_to_int (f_mul (f_of_int x) frequency)) noiseSize;
          noiseY = go_rem (f_to_int (f_mul (f_of_int y) frequency)) noiseSize;
          noiseX = (if noiseX <s 0 then noiseX + noiseSize else noiseX);
          noiseY = (if noiseY <s 0 then noiseY + noiseSize else noiseY)
      in bind_outcome (load result y x) (\<lambda>old.
         bind_outcome (load octaveNoise noiseY noiseX) (\<lambda>sample.
           store result y x (f_add old (f_mul sample amplitude)))))"

text \<open>
  The body of the loop over the octaves. The state is the result, the amplitude, the
  frequency and the sum of the amplitudes.
\<close>

definition octave_body ::
  "rand_source \<Rightarrow> go_int \<Rightarrow> go_int \<Rightarrow> go_int \<Rightarrow> f64 \<Rightarrow> f64 \<Rightarrow> go_int \<Rightarrow> go_int
     \<Rightarrow> f64 list list \<times> f64 \<times> f64 \<times> f64 \<Rightarrow> (f64 list list \<times> f64 \<times> f64 \<times> f64) outcome" where
  "octave_body src noiseSize width height persistence lacunarity seed octave st =
     (case st of (result, amplitude, frequency, maxValue) \<Rightarrow>
        let octaveSeed = seed + octave * 1000
        in bind_outcome (DiamondSquare src noiseSize (Finite (1 / 2)) octaveSeed) (\<lambda>octaveNoise.
           bind_outcome
             (for_loop 0 (\<lambda>y. y <s height) (\<lambda>y. y + 1)
                (\<lambda>y. for_loop 0 (\<lambda>x. x <s width) (\<lambda>x. x + 1)
                        (octave_cell octaveNoise noiseSize amplitude frequency y)) result)
             (\<lambda>result'.
                Returned (result', f_mul amplitude persistence, f_mul frequency lacunarity,
                          f_add maxValue amplitude))))"

definition MultiOctaveNoise ::
  "rand_source \<Rightarrow> go_int \<Rightarrow> go_int \<Rightarrow> go_int \<Rightarrow> f64 \<Rightarrow> f64 \<Rightarrow> f64 \<Rightarrow> go_int
     \<Rightarrow> f64 list list outcome" where
  "MultiOctaveNoise src width height octaves persistence lacunarity scale seed =
     bind_outcome (nextPowerOfTwoPlusOne (go_max width height)) (\<lambda>noiseSize.
       if height <s 0 then Panics MakesliceLen
       else if 0 <s height \<and> width <s 0 then Panics MakesliceLen
       else
         bind_outcome
           (for_loop 0 (\<lambda>octave. octave <s octaves) (\<lambda>octave. octave + 1)
              (octave_body src noiseSize width height persistence lacunarity seed)
              (replicate (nat (sint height)) (replicate (nat (sint width)) (Finite 0)),
               Finite 1, scale, Finite 0))
           (\<lambda>(result, amplitude, frequency, maxValue).
              Returned (map (map (\<lambda>v. f_div v maxValue)) result)))"

section \<open>Package terrain: generation\<close>

record NoiseParameters =
  Octaves :: go_int
  Persistence :: f64
  Lacunarity :: f64
  Scale :: f64
  HurstExp :: f64

record TerrainConfig =
  Seed :: go_int
  SeaLevel :: f64
  LandRatio :: f64
  NoiseParams :: NoiseParameters

text \<open>\<open>Validate\<close> returns an error, the message of a \<open>TerrainError\<close>, or \<open>nil\<close>.\<close>

definition Validate :: "TerrainConfig \<Rightarrow> string option" where
  "Validate tc =
     (if f_lt (LandRatio tc) (Finite 0) \<or> f_gt (LandRatio tc) (Finite 1)
      then Some ''land_ratio must be between 0.0 and 1.0''
      else if Octaves (NoiseParams tc) <s 1 \<or> 10 <s Octaves (NoiseParams tc)
      then Some ''octaves must be between 1 and 10''
      else if f_le (Persistence (NoiseParams tc)) (Finite 0)
               \<or> f_gt (Persistence (NoiseParams tc)) (Finite 1)
      then Some ''persistence must be between 0.0 and 1.0''
      else if f_le (Lacunarity (NoiseParams tc)) (Finite 1)
      then Some ''lacunarity must be greater than 1.0''
      else if f_lt (HurstExp (NoiseParams tc)) (Finite 0)
               \<or> f_gt (HurstExp (NoiseParams tc)) (Finite 1)
      then Some ''hurst_exp must be between 0.0 and 1.0''
      else None)"

text \<open>
  The body of the loop of \<open>calculateGridDimensions\<close>; the state is
  \<open>(minCol, maxCol, minRow, maxRow)\<close>.
\<close>

definition calculateGridDimensions_body ::
  "go_int \<times> go_int \<times> go_int \<times> go_int \<Rightarrow> AxialCoord \<Rightarrow> go_int \<times> go_int \<times> go_int \<times> go_int" where
  "calculateGridDimensions_body st coord =
     (case st of (minCol, maxCol, minRow, maxRow) \<Rightarrow>
      case ToOffset coord of (col, row) \<Rightarrow>
        let minCol = (if col <s minCol then col else minCol);
            maxCol = (if maxCol <s col then col else maxCol);
            minRow = (if row <s minRow then row else minRow);
            maxRow = (if maxRow <s row then row else maxRow)
        in (minCol, maxCol, minRow, maxRow))"

definition calculateGridDimensions :: "AxialCoord list \<Rightarrow> go_int \<times> go_int" where
  "calculateGridDimensions coords =
     (if coords = [] then (0, 0)
      else case foldl calculateGridDimensions_body
                  (2147483647, - 2147483648, 2147483647, - 2147483648) coords of
             (minCol, maxCol, minRow, maxRow) \<Rightarrow> (maxCol - minCol + 1, maxRow - minRow + 1))"

definition GenerateHeightmap ::
  "rand_source \<Rightarrow> go_int \<Rightarrow> go_int \<Rightarrow> NoiseParameters \<Rightarrow> go_int \<Rightarrow> f64 list list outcome" where
  "GenerateHeightmap src width height params seed =
     MultiOctaveNoise src width height (Octaves params) (Persistence params)
       (Lacunarity params) (Scale params) seed"

text \<open>
  \<open>GenerateTerrain\<close> returns the tiles, or the message of the error it returns in place of
  them.
\<close>

definition GenerateTerrain ::
  "rand_source \<Rightarrow> 'a Grid \<Rightarrow> TerrainConfig \<Rightarrow> (string + HexTile list) outcome" where
  "GenerateTerrain src grid cfg =
     (case Validate cfg of
        Some err \<Rightarrow> Returned (Inl err)
      | None \<Rightarrow>
          let coords = AllCoords grid
          in if coords = [] then Returned (Inl ''empty grid provided'')
             else
               case calculateGridDimensions coords of (width, height) \<Rightarrow>
                 bind_outcome (GenerateHeightmap src width height (NoiseParams cfg) (Seed cfg))
                   (\<lambda>heightmap.
                 bind_outcome (ApplyHypsometricCurve heightmap (LandRatio cfg))
                   (\<lambda>heightmap.
                 bind_outcome (HeightmapToHexTiles heightmap grid (SeaLevel cfg))
                   (\<lambda>ts. Returned (Inr ts)))))"

section \<open>Concrete inputs\<close>

text \<open>
  A generator whose every value is one quarter, a terrain configuration with one octave,
  the 2 by 2 and 3 by 2 Region grids, and the heightmap of the repository's test of
  \<open>HeightmapToHexTiles\<close>.
\<close>

definition quarter_source :: rand_source where
  "quarter_source seed drawn = 1 / 4"

text \<open>A generator that agrees with it for the seed 42 only.\<close>

definition other_source :: rand_source where
  "other_source seed drawn = (if seed = 42 then 1 / 4 else 3 / 4)"

definition one_octave_config :: TerrainConfig where
  "one_octave_config =
     \<lparr>Seed = 42, SeaLevel = Finite 0, LandRatio = Finite (1 / 10),
      NoiseParams = \<lparr>Octaves = 1, Persistence = Finite (1 / 2), Lacunarity = Finite 2,
                     Scale = Finite 1, HurstExp = Finite (85 / 100)\<rparr>\<rparr>"

definition grid_2x2 :: "unit Grid" where
  "grid_2x2 =
     \<lparr>config = \<lparr>Width = 2, Height = 2, Topology = TopologyRegion\<rparr>,
      tiles = replicate 2 (replicate 2 None),
      coordMap = populate_coordMap \<lparr>Width = 2, Height = 2, Topology = TopologyRegion\<rparr>\<rparr>"

definition grid_3x2 :: "unit Grid" where
  "grid_3x2 =
     \<lparr>config = \<lparr>Width = 3, Height = 2, Topology = TopologyRegion\<rparr>,
      tiles = replicate 2 (replicate 3 None),
      coordMap = populate_coordMap \<lparr>Width = 3, Height = 2, Topology = TopologyRegion\<rparr>\<rparr>"

definition test_heightmap :: "f64 list list" where
  "test_heightmap =
     [[Finite (- 100), Finite 200, Finite 1500], [Finite (- 50), Finite 0, Finite 800]]"

text \<open>
  The two rows of the repository's test of \<open>ApplyHypsometricCurve\<close> and its target land
  ratio, \<open>0.4\<close>: the binary64 numbers that the decimal literals of the test denote.
\<close>

definition test_ramp :: "real list list" where
  "test_ramp =
     [[- 1, - (1 / 2), 0, 1 / 2, 1],
      [- (3602879701896397 / 4503599627370496), - (5404319552844595 / 18014398509481984),
       3602879701896397 / 18014398509481984, 3152519739159347 / 4503599627370496,
       8106479329266893 / 9007199254740992]]"

definition test_land_ratio :: real where
  "test_land_ratio = 3602879701896397 / 9007199254740992"

section \<open>Package hex: paths\<close>

definition axialRound :: "f64 \<Rightarrow> f64 \<Rightarrow> AxialCoord" where
  "axialRound q r =
     (let s = f_sub (f_neg q) r;
          rq = math_Round q;
          rr = math_Round r;
          rs = math_Round s;
          qDiff = math_Abs (f_sub rq q);
          rDiff = math_Abs (f_sub rr r);
          sDiff = math_Abs (f_sub rs s)
      in if f_gt qDiff rDiff \<and> f_gt qDiff sDiff
         then \<lparr>Q = f_to_int (f_sub (f_neg rr) rs), R = f_to_int rr\<rparr>
         else if f_gt rDiff sDiff
         then \<lparr>Q = f_to_int rq, R = f_to_int (f_sub (f_neg rq) rs)\<rparr>
         else \<lparr>Q = f_to_int rq, R = f_to_int rr\<rparr>)"

text \<open>A write \<open>path[i] = c\<close>, which panics outside the slice.\<close>

definition store_at :: "'a list \<Rightarrow> go_int \<Rightarrow> 'a \<Rightarrow> 'a list outcome" where
  "store_at xs i v =
     (if 0 \<le> sint i \<and> sint i < int (length xs) then Returned (xs[nat (sint i) := v])
      else Panics IndexOutOfRange)"

text \<open>The body of the interpolation loop of \<open>hexPathRegion\<close>.\<close>

definition hexPathRegion_body ::
  "AxialCoord \<Rightarrow> AxialCoord \<Rightarrow> go_int \<Rightarrow> go_int \<Rightarrow> AxialCoord list \<Rightarrow> AxialCoord list outcome" where
  "hexPathRegion_body from to distance i path =
     (let t = f_div (f_of_int i) (f_of_int distance);
          q = f_add (f_mul (f_of_int (Q from)) (f_sub (Finite 1) t)) (f_mul (f_of_int (Q to)) t);
          r = f_add (f_mul (f_of_int (R from)) (f_sub (Finite 1) t)) (f_mul (f_of_int (R to)) t)
      in store_at path i (axialRound q r))"

definition hexPathRegion :: "AxialCoord \<Rightarrow> AxialCoord \<Rightarrow> AxialCoord list outcome" where
  "hexPathRegion from to =
     (let distance = hexDistance from to
      in if distance = 0 then Returned [from]
         else if distance + 1 <s 0 then Panics MakesliceLen
         else
           bind_outcome (store_at (replicate (nat (sint (distance + 1))) \<lparr>Q = 0, R = 0\<rparr>) 0 from)
             (\<lambda>path.
           bind_outcome (store_at path distance to)
             (\<lambda>path.
           for_loop 1 (\<lambda>i. i <s distance) (\<lambda>i. i + 1) (hexPathRegion_body from to distance)
             path)))"

text \<open>
  The body of the inner loop of \<open>ShortestPath\<close> over the offsets \<open>dCol\<close> and \<open>dRow\<close>, the
  inner loop, and the outer loop; the state is \<open>(bestTo, minDist)\<close>.
\<close>

definition ShortestPath_body ::
  "AxialCoord \<Rightarrow> AxialCoord \<Rightarrow> GridConfig \<Rightarrow> go_int \<Rightarrow> AxialCoord \<times> go_int \<Rightarrow> go_int
     \<Rightarrow> AxialCoord \<times> go_int" where
  "ShortestPath_body from to cfg dCol st dRow =
     (case st of (bestTo, minDist) \<Rightarrow>
      case ToOffset to of (toCol, toRow) \<Rightarrow>
        let wrappedCol = toCol + dCol * Width cfg;
            wrappedRow = toRow + dRow * Height cfg;
            wrappedTo = OffsetToAxial wrappedCol wrappedRow;
            dist = hexDistance from wrappedTo
        in if dist <s minDist then (wrappedTo, dist) else (bestTo, minDist))"

definition ShortestPath_inner ::
  "AxialCoord \<Rightarrow> AxialCoord \<Rightarrow> GridConfig \<Rightarrow> AxialCoord \<times> go_int \<Rightarrow> go_int
     \<Rightarrow> AxialCoord \<times> go_int" where
  "ShortestPath_inner from to cfg st dCol =
     foldl (ShortestPath_body from to cfg dCol) st [- 1, 0, 1]"

definition ShortestPath_bestTo :: "'a Grid \<Rightarrow> AxialCoord \<Rightarrow> AxialCoord \<Rightarrow> AxialCoord" where
  "ShortestPath_bestTo g from to =
     fst (foldl (ShortestPath_inner from to (config g)) (to, hexDistance from to) [- 1, 0, 1])"

definition ShortestPath :: "'a Grid \<Rightarrow> AxialCoord \<Rightarrow> AxialCoord \<Rightarrow> AxialCoord list outcome" where
  "ShortestPath g from to =
     (if Topology (config g) = TopologyRegion then hexPathRegion from to
      else bind_outcome (hexPathRegion from (ShortestPath_bestTo g from to))
             (map_outcome (WrapCoord g)))"

section \<open>Paths: auxiliary notions\<close>

text \<open>
  \<open>axialRound\<close> on finite values, as a function to a pair of integers; a path whose
  consecutive coordinates are at hex distance 1; a coordinate whose components are at
  most a bound in absolute value.
\<close>

definition round_axial :: "real \<Rightarrow> real \<Rightarrow> int \<times> int" where
  "round_axial q r =
     (let s = - q - r;
          rq = round_half_away q;
          rr = round_half_away r;
          rs = round_half_away s;
          qDiff = \<bar>real_of_int rq - q\<bar>;
          rDiff = \<bar>real_of_int rr - r\<bar>;
          sDiff = \<bar>real_of_int rs - s\<bar>
      in if rDiff < qDiff \<and> sDiff < qDiff then (- rr - rs, rr)
         else if sDiff < rDiff then (rq, - rq - rs)
         else (rq, rr))"

fun contiguous :: "AxialCoord list \<Rightarrow> bool" where
  "contiguous (a # b # rest) = (hexDistance a b = 1 \<and> contiguous (b # rest))"
| "contiguous path = True"

definition coord_within :: "int \<Rightarrow> AxialCoord \<Rightarrow> bool" where
  "coord_within bound c = (\<bar>sint (Q c)\<bar> \<le> bound \<and> \<bar>sint (R c)\<bar> \<le> bound)"

text \<open>
  The point number \<open>i\<close> of the interpolation from \<open>a\<close> to \<open>b\<close>: the rounding of
  \<open>a + i (b - a) / n\<close>, where \<open>n\<close> is the hex distance from \<open>a\<close> to \<open>b\<close>.
\<close>

definition interpolated :: "AxialCoord \<Rightarrow> AxialCoord \<Rightarrow> int \<Rightarrow> AxialCoord" where
  "interpolated a b i =
     (let dq = sint (Q b) - sint (Q a);
          dr = sint (R b) - sint (R a);
          n = max \<bar>dq\<bar> (max \<bar>dr\<bar> \<bar>dq + dr\<bar>);
          q = real_of_int (sint (Q a)) + real_of_int i * real_of_int dq / real_of_int n;
          r = real_of_int (sint (R a)) + real_of_int i * real_of_int dr / real_of_int n
      in \<lparr>Q = word_of_int (fst (round_axial q r)), R = word_of_int (snd (round_axial q r))\<rparr>)"

section \<open>Round trip between axial and offset coordinates\<close>

text \<open>
  Claim C6. For every pair of 64-bit integers \<open>(q, r)\<close>, \<open>ToOffset\<close> followed by
  \<open>OffsetToAxial\<close> gives back \<open>(q, r)\<close>, and for every offset pair \<open>(col, row)\<close>,
  \<open>OffsetToAxial\<close> followed by \<open>ToOffset\<close> gives back \<open>(col, row)\<close>. The identity holds
  with wrap-around as well: both directions add and subtract the same half column.
\<close>

theorem offset_axial_round_trip:
  "(case ToOffset \<lparr>Q = q, R = r\<rparr> of (col, row) \<Rightarrow> OffsetToAxial col row) = \<lparr>Q = q, R = r\<rparr>
   \<and> ToOffset (OffsetToAxial col row) = (col, row)"
  by (simp add: ToOffset_def OffsetToAxial_def)

section \<open>Signed 64-bit arithmetic\<close>

lemma sint_word_of_int_64:
  "- 9223372036854775808 \<le> k \<Longrightarrow> k < 9223372036854775808 \<Longrightarrow>
   sint (word_of_int k :: go_int) = k"
  by (simp add: sint_sbintrunc' signed_take_bit_int_eq_self)

lemma sint_bounds_64:
  "- 9223372036854775808 \<le> sint (x :: go_int)" "sint (x :: go_int) < 9223372036854775808"
  using sint_ge [of x] sint_lt [of x] by simp_all

lemma smod_pos_bounds:
  fixes k l :: int
  assumes "0 < l"
  shows "- l < k smod l" "k smod l < l"
proof -
  have a: "0 \<le> \<bar>k\<bar> mod l" "\<bar>k\<bar> mod l < l" using assms by simp_all
  have "k smod l = \<bar>k\<bar> mod l \<or> k smod l = - (\<bar>k\<bar> mod l) \<or> k smod l = 0"
    using assms by (simp add: signed_modulo_int_def sgn_if)
  then show "- l < k smod l" "k smod l < l" using a assms by linarith+
qed

lemma smod_nonneg: fixes k l :: int shows "0 \<le> k \<Longrightarrow> 0 < l \<Longrightarrow> k smod l = k mod l"
  by (simp add: signed_modulo_int_def sgn_if)

lemma smod_floor_mod:
  fixes k l :: int
  shows "(k smod l + l) mod l = k mod l"
proof -
  have "k smod l = k - (k sdiv l) * l"
    by (simp add: minus_sdiv_mult_eq_smod)
  then have "k smod l + l = k + (1 - k sdiv l) * l"
    by (simp add: algebra_simps)
  then show ?thesis by (simp only: mod_mult_self1)
qed

lemma wrap_rem:
  fixes x w :: go_int
  assumes "0 <s w" "w \<le>s 2 ^ 62"
  shows "sint (go_rem (go_rem x w + w) w) = sint x mod sint w"
proof -
  have w: "0 < sint w" "sint w \<le> 4611686018427387904"
    using assms by (simp_all add: word_sless_alt word_sle_eq)
  have b: "- sint w < sint x smod sint w" "sint x smod sint w < sint w"
    using smod_pos_bounds [OF w(1)] by simp_all
  have 1: "sint (go_rem x w) = sint x smod sint w"
    unfolding go_rem_def using b w by (intro sint_word_of_int_64) linarith+
  have "go_rem x w + w = word_of_int (sint (go_rem x w) + sint w)" by simp
  then have "sint (go_rem x w + w) = sint (word_of_int (sint x smod sint w + sint w) :: go_int)"
    by (simp only: 1)
  also have "\<dots> = sint x smod sint w + sint w"
    using b w by (intro sint_word_of_int_64) linarith+
  finally have 2: "sint (go_rem x w + w) = sint x smod sint w + sint w" .
  have c: "- sint w < (sint x smod sint w + sint w) smod sint w"
     "(sint x smod sint w + sint w) smod sint w < sint w"
    using smod_pos_bounds [OF w(1)] by simp_all
  have 3: "sint (go_rem (go_rem x w + w) w) = (sint x smod sint w + sint w) smod sint w"
    unfolding go_rem_def [of "go_rem x w + w"] 2
    using c w by (intro sint_word_of_int_64) linarith+
  have "(sint x smod sint w + sint w) smod sint w = (sint x smod sint w + sint w) mod sint w"
    using b w by (intro smod_nonneg) linarith+
  then show ?thesis
    by (simp only: 3 smod_floor_mod)
qed

lemma mem_upto_int:
  fixes x n :: go_int
  shows "x \<in> set (upto_int n) \<longleftrightarrow> 0 \<le> sint x \<and> sint x < sint n"
proof
  assume "x \<in> set (upto_int n)"
  then obtain k where k: "k < nat (sint n)" "x = of_nat k" by (auto simp: upto_int_def)
  have "sint n < 9223372036854775808" using sint_bounds_64 by simp
  then have "int k < 9223372036854775808" using k by linarith
  moreover have "x = word_of_int (int k)" using k by simp
  ultimately have "sint x = int k"
    by (simp only:) (rule sint_word_of_int_64; linarith)
  then show "0 \<le> sint x \<and> sint x < sint n" using k by simp
next
  assume a: "0 \<le> sint x \<and> sint x < sint n"
  then have "x = of_nat (nat (sint x))" by simp
  moreover have "nat (sint x) \<in> set [0..<nat (sint n)]" using a by simp
  ultimately show "x \<in> set (upto_int n)" unfolding upto_int_def set_map by (rule image_eqI)
qed


lemma wrap_rem_fixed:
  fixes x w :: go_int
  assumes "0 <s w" "w \<le>s 2 ^ 62" "0 \<le> sint x" "sint x < sint w"
  shows "go_rem (go_rem x w + w) w = x"
proof -
  have "sint (go_rem (go_rem x w + w) w) = sint x"
    using assms by (simp add: wrap_rem)
  then show ?thesis by (simp only: signed_word_eqI)
qed

section \<open>The grid's valid set\<close>

lemma foldl_mark_inner:
  "foldl (\<lambda>m col. m(f col := True)) m cols c \<longleftrightarrow> m c \<or> c \<in> f ` set cols"
  by (induction cols arbitrary: m) auto

lemma foldl_mark:
  "foldl (\<lambda>m row. foldl (\<lambda>m col. m(f col row := True)) m cols) m rows c \<longleftrightarrow>
     m c \<or> (\<exists>row \<in> set rows. \<exists>col \<in> set cols. c = f col row)"
proof (induction rows arbitrary: m)
  case Nil
  then show ?case by simp
next
  case (Cons row rows)
  have "foldl (\<lambda>m row. foldl (\<lambda>m col. m(f col row := True)) m cols) m (row # rows) c \<longleftrightarrow>
        foldl (\<lambda>m col. m(f col row := True)) m cols c
          \<or> (\<exists>row \<in> set rows. \<exists>col \<in> set cols. c = f col row)"
    by (simp only: foldl_Cons Cons.IH)
  also have "foldl (\<lambda>m col. m(f col row := True)) m cols c \<longleftrightarrow>
        m c \<or> (\<exists>col \<in> set cols. c = f col row)"
    using foldl_mark_inner [of "\<lambda>col. f col row" m cols c] by blast
  finally show ?case by auto
qed

lemma NewGrid_coordMap:
  assumes "NewGrid cfg = Returned g"
  shows "coordMap g c \<longleftrightarrow>
    (\<exists>row \<in> set (upto_int (Height cfg)). \<exists>col \<in> set (upto_int (Width cfg)).
       c = OffsetToAxial col row)"
proof -
  have "coordMap g = populate_coordMap cfg"
    using assms by (auto simp: NewGrid_def split: if_splits)
  then show ?thesis by (simp only: populate_coordMap_def foldl_mark) simp
qed

lemma NewGrid_config: "NewGrid cfg = Returned g \<Longrightarrow> config g = cfg"
  by (auto simp: NewGrid_def split: if_splits)

section \<open>Wrapping\<close>

text \<open>
  Claim C10. On a World grid built by \<open>NewGrid\<close> with positive width and height (at most
  \<open>2 ^ 62\<close>, far above any width that can be allocated, so that the sum
  \<open>col % width + width\<close> stays inside 64 bits), whatever its cells hold, \<open>WrapCoord\<close> of
  any axial coordinate returns a coordinate that \<open>IsValid\<close> accepts and that
  \<open>WrapCoord\<close> leaves unchanged.
\<close>

theorem WrapCoord_valid_idempotent:
  assumes g: "NewGrid cfg = Returned g0" "g = g0\<lparr>tiles := cells\<rparr>"
    and world: "Topology cfg = TopologyWorld"
    and W: "0 <s Width cfg" "Width cfg \<le>s 2 ^ 62"
    and H: "0 <s Height cfg" "Height cfg \<le>s 2 ^ 62"
  shows "\<exists>w. WrapCoord g c = Returned w \<and> IsValid g w = Returned True
            \<and> WrapCoord g w = Returned w"
proof -
  obtain col row where off: "ToOffset c = (col, row)" by (cases "ToOffset c")
  define col' where "col' = go_rem (go_rem col (Width cfg) + Width cfg) (Width cfg)"
  define row' where "row' = go_rem (go_rem row (Height cfg) + Height cfg) (Height cfg)"
  define w where "w = OffsetToAxial col' row'"
  have cfg: "config g = cfg" using g NewGrid_config by simp
  have nz: "Width cfg \<noteq> 0" "Height cfg \<noteq> 0" using W(1) H(1) by auto
  have wc: "WrapCoord g c = Returned w"
    by (simp add: WrapCoord_def cfg world off nz Let_def w_def col'_def row'_def)
  have pw: "0 < sint (Width cfg)" and ph: "0 < sint (Height cfg)"
    using W(1) H(1) by (simp_all add: word_sless_alt)
  have cb: "0 \<le> sint col'" "sint col' < sint (Width cfg)"
    using pw by (simp_all add: col'_def wrap_rem [OF W])
  have rb: "0 \<le> sint row'" "sint row' < sint (Height cfg)"
    using ph by (simp_all add: row'_def wrap_rem [OF H])
  have off': "ToOffset w = (col', row')"
    by (simp add: w_def ToOffset_def OffsetToAxial_def)
  have ww: "WrapCoord g w = Returned w"
    by (simp add: WrapCoord_def cfg world off' nz Let_def
          wrap_rem_fixed [OF W cb] wrap_rem_fixed [OF H rb] w_def [symmetric])
  have "col' \<in> set (upto_int (Width cfg))" "row' \<in> set (upto_int (Height cfg))"
    using cb rb by (simp_all only: mem_upto_int)
  then have "coordMap g0 w"
    unfolding NewGrid_coordMap [OF g(1)] w_def by blast
  then have "coordMap g w" using g by simp
  then have "IsValid g w = Returned True"
    by (simp add: IsValid_def cfg world ww)
  with wc ww show ?thesis by blast
qed


lemma NewGrid_5x3: "NewGrid \<lparr>Width = 5, Height = 3, Topology = t\<rparr> = Returned (grid_5x3 t)"
  by (simp add: NewGrid_def grid_5x3_def word_sless_alt)

lemma NewGrid_10x8: "NewGrid \<lparr>Width = 10, Height = 8, Topology = t\<rparr> = Returned (grid_10x8 t)"
  by (simp add: NewGrid_def grid_10x8_def word_sless_alt)

theorem WrapCoord_valid_idempotent_witness:
  "NewGrid \<lparr>Width = 5, Height = 3, Topology = TopologyWorld\<rparr> = Returned (grid_5x3 TopologyWorld)
   \<and> WrapCoord (grid_5x3 TopologyWorld) \<lparr>Q = - 1, R = - 1\<rparr> = Returned \<lparr>Q = 4, R = 0\<rparr>
   \<and> IsValid (grid_5x3 TopologyWorld) \<lparr>Q = 4, R = 0\<rparr> = Returned True
   \<and> WrapCoord (grid_5x3 TopologyWorld) \<lparr>Q = 4, R = 0\<rparr> = Returned \<lparr>Q = 4, R = 0\<rparr>"
proof -
  have w: "WrapCoord (grid_5x3 TopologyWorld) \<lparr>Q = - 1, R = - 1\<rparr> = Returned \<lparr>Q = 4, R = 0\<rparr>"
    by code_simp
  have "\<exists>w. WrapCoord (grid_5x3 TopologyWorld) \<lparr>Q = - 1, R = - 1\<rparr> = Returned w
          \<and> IsValid (grid_5x3 TopologyWorld) w = Returned True
          \<and> WrapCoord (grid_5x3 TopologyWorld) w = Returned w"
    by (rule WrapCoord_valid_idempotent
          [OF NewGrid_5x3, where cells = "tiles (grid_5x3 TopologyWorld)"])
       (simp_all add: word_sless_alt word_sle_eq)
  with w show ?thesis by (simp add: NewGrid_5x3)
qed

section \<open>Neighbours on the 5 by 3 grids\<close>

text \<open>
  Claim C8, as the code has it. On the Region grid of width 5 and height 3 the coordinate
  \<open>(0, 0)\<close> has exactly the three neighbours \<open>(1, 0)\<close>, \<open>(1, -1)\<close> and \<open>(0, 1)\<close>; on the
  World grid of the same size it has six neighbours after wrapping, all different.
\<close>

theorem neighbors_5x3:
  "NewGrid \<lparr>Width = 5, Height = 3, Topology = TopologyRegion\<rparr> = Returned (grid_5x3 TopologyRegion)
   \<and> Neighbors \<lparr>Q = 0, R = 0\<rparr> (grid_5x3 TopologyRegion)
       = Returned [\<lparr>Q = 1, R = 0\<rparr>, \<lparr>Q = 1, R = - 1\<rparr>, \<lparr>Q = 0, R = 1\<rparr>]
   \<and> NewGrid \<lparr>Width = 5, Height = 3, Topology = TopologyWorld\<rparr> = Returned (grid_5x3 TopologyWorld)
   \<and> Neighbors \<lparr>Q = 0, R = 0\<rparr> (grid_5x3 TopologyWorld)
       = Returned [\<lparr>Q = 1, R = 0\<rparr>, \<lparr>Q = 1, R = - 1\<rparr>, \<lparr>Q = 0, R = 2\<rparr>,
                   \<lparr>Q = 4, R = - 2\<rparr>, \<lparr>Q = 4, R = - 1\<rparr>, \<lparr>Q = 0, R = 1\<rparr>]
   \<and> distinct [\<lparr>Q = 1, R = 0\<rparr>, \<lparr>Q = 1, R = - 1\<rparr>, \<lparr>Q = 0, R = 2 :: go_int\<rparr>,
                   \<lparr>Q = 4, R = - 2\<rparr>, \<lparr>Q = 4, R = - 1\<rparr>, \<lparr>Q = 0, R = 1\<rparr>]"
proof -
  have 1: "Neighbors \<lparr>Q = 0, R = 0\<rparr> (grid_5x3 TopologyRegion)
       = Returned [\<lparr>Q = 1, R = 0\<rparr>, \<lparr>Q = 1, R = - 1\<rparr>, \<lparr>Q = 0, R = 1\<rparr>]"
    by code_simp
  have 2: "Neighbors \<lparr>Q = 0, R = 0\<rparr> (grid_5x3 TopologyWorld)
       = Returned [\<lparr>Q = 1, R = 0\<rparr>, \<lparr>Q = 1, R = - 1\<rparr>, \<lparr>Q = 0, R = 2\<rparr>,
                   \<lparr>Q = 4, R = - 2\<rparr>, \<lparr>Q = 4, R = - 1\<rparr>, \<lparr>Q = 0, R = 1\<rparr>]"
    by code_simp
  show ?thesis by (simp add: 1 2 NewGrid_5x3)
qed

text \<open>
  The set the claim names, \<open>{(1, 0), (-1, 1), (0, 1)}\<close>, is not the set of neighbours:
  \<open>(1, -1)\<close> is a neighbour and is not in it, and \<open>(-1, 1)\<close> is not a valid coordinate of
  the grid.
\<close>

theorem neighbors_5x3_region_counterexample:
  "Neighbors \<lparr>Q = 0, R = 0\<rparr> (grid_5x3 TopologyRegion)
       = Returned [\<lparr>Q = 1, R = 0\<rparr>, \<lparr>Q = 1, R = - 1\<rparr>, \<lparr>Q = 0, R = 1\<rparr>]
   \<and> \<lparr>Q = 1, R = - 1\<rparr> \<notin> {\<lparr>Q = 1, R = 0\<rparr>, \<lparr>Q = - 1, R = 1\<rparr>, \<lparr>Q = 0, R = 1 :: go_int\<rparr>}
   \<and> IsValid (grid_5x3 TopologyRegion) \<lparr>Q = - 1, R = 1\<rparr> = Returned False"
proof -
  have 1: "Neighbors \<lparr>Q = 0, R = 0\<rparr> (grid_5x3 TopologyRegion)
       = Returned [\<lparr>Q = 1, R = 0\<rparr>, \<lparr>Q = 1, R = - 1\<rparr>, \<lparr>Q = 0, R = 1\<rparr>]"
    by code_simp
  have 2: "IsValid (grid_5x3 TopologyRegion) \<lparr>Q = - 1, R = 1\<rparr> = Returned False"
    by code_simp
  show ?thesis by (simp add: 1 2)
qed

section \<open>Distance\<close>

lemma sint_DistanceTo_body:
  "sint (DistanceTo_body c other cfg dq minDist dr) =
     min (sint minDist) (sint (hexDistance c (axial_shifted other cfg dq dr)))"
  by (simp add: DistanceTo_body_def axial_shifted_def Let_def word_sless_alt min_def)

lemma Min_insert_min:
  fixes a b :: int
  assumes "finite S"
  shows "Min (insert (min a b) S) = min a (Min (insert b S))"
proof (cases "S = {}")
  case True
  then show ?thesis by simp
next
  case False
  then show ?thesis using assms by (simp add: min.assoc)
qed

lemma DistanceTo_inner:
  "sint (foldl (DistanceTo_body c other cfg dq) m drs) =
     Min (insert (sint m) ((\<lambda>dr. sint (hexDistance c (axial_shifted other cfg dq dr))) ` set drs))"
proof (induction drs arbitrary: m)
  case Nil
  then show ?case by simp
next
  case (Cons dr drs)
  show ?case
    by (simp add: Cons.IH sint_DistanceTo_body Min_insert_min insert_commute)
qed

lemma DistanceTo_outer:
  "sint (foldl (\<lambda>m dq. foldl (DistanceTo_body c other cfg dq) m drs) m dqs) =
     Min (insert (sint m)
        ((\<lambda>(dq, dr). sint (hexDistance c (axial_shifted other cfg dq dr))) ` (set dqs \<times> set drs)))"
proof (induction dqs arbitrary: m)
  case Nil
  then show ?case by simp
next
  case (Cons dq dqs)
  let ?f = "\<lambda>(dq, dr). sint (hexDistance c (axial_shifted other cfg dq dr))"
  let ?A = "(\<lambda>dr. sint (hexDistance c (axial_shifted other cfg dq dr))) ` set drs"
  let ?B = "?f ` (set dqs \<times> set drs)"
  have split: "?f ` (set (dq # dqs) \<times> set drs) = ?A \<union> ?B"
    by auto
  have "sint (foldl (\<lambda>m dq. foldl (DistanceTo_body c other cfg dq) m drs) m (dq # dqs)) =
        Min (insert (Min (insert (sint m) ?A)) ?B)"
    by (simp only: foldl_Cons Cons.IH DistanceTo_inner)
  also have "\<dots> = Min (insert (sint m) ?A \<union> ?B)"
  proof (cases "?B = {}")
    case True
    then show ?thesis by (simp only: Un_empty_right Min_singleton)
  next
    case False
    have "Min (insert (sint m) ?A \<union> ?B) = min (Min (insert (sint m) ?A)) (Min ?B)"
      using False by (intro Min_Un) simp_all
    moreover have "Min (insert (Min (insert (sint m) ?A)) ?B) = min (Min (insert (sint m) ?A)) (Min ?B)"
      using False by (intro Min_insert) simp_all
    ultimately show ?thesis by simp
  qed
  finally show ?case by (simp only: split Un_insert_left)
qed

lemma DistanceTo_min:
  "sint (DistanceTo a b g) =
     (if Topology (config g) = TopologyRegion then sint (hexDistance a b)
      else Min ((\<lambda>(dq, dr). sint (hexDistance a (axial_shifted b (config g) dq dr)))
                  ` ({- 1, 0, 1} \<times> {- 1, 0, 1})))"
proof (cases "Topology (config g) = TopologyRegion")
  case True
  then show ?thesis by (simp add: DistanceTo_def)
next
  case False
  have b: "axial_shifted b (config g) 0 0 = b"
    by (simp add: axial_shifted_def)
  have "sint (hexDistance a b) \<in> (\<lambda>(dq, dr). sint (hexDistance a (axial_shifted b (config g) dq dr)))
                  ` ({- 1, 0, 1} \<times> {- 1, 0, 1})"
    using b by (intro image_eqI [where x = "(0, 0)"]) simp_all
  then have "insert (sint (hexDistance a b))
       ((\<lambda>(dq, dr). sint (hexDistance a (axial_shifted b (config g) dq dr)))
                  ` ({- 1, 0, 1} \<times> {- 1, 0, 1})) =
       (\<lambda>(dq, dr). sint (hexDistance a (axial_shifted b (config g) dq dr)))
                  ` ({- 1, 0, 1} \<times> {- 1, 0, 1})"
    by (rule insert_absorb)
  moreover have "set [- 1, 0, 1 :: go_int] = {- 1, 0, 1}" by simp
  ultimately show ?thesis
    using False by (simp only: DistanceTo_def DistanceTo_outer if_False)
qed

lemma nine_offsets:
  "{- 1, 0, 1 :: go_int} \<times> {- 1, 0, 1 :: go_int} =
     {(- 1, - 1), (- 1, 0), (- 1, 1), (0, - 1), (0, 0), (0, 1), (1, - 1), (1, 0), (1, 1)}"
  by (simp add: insert_Times_insert)

lemma DistanceTo_10x8_world:
  "sint (DistanceTo \<lparr>Q = 0, R = 0\<rparr> \<lparr>Q = 9, R = 0\<rparr> (grid_10x8 TopologyWorld)) = 1"
proof -
  have "(\<lambda>(dq, dr). sint (hexDistance \<lparr>Q = 0, R = 0\<rparr>
            (axial_shifted \<lparr>Q = 9, R = 0\<rparr> (config (grid_10x8 TopologyWorld)) dq dr)))
          ` ({- 1, 0, 1} \<times> {- 1, 0, 1}) = {9, 1, 8, 9, 17, 19, 27}"
    apply (simp only: nine_offsets image_insert image_empty prod.case axial_shifted_def)
    apply (simp add: grid_10x8_def hexDistance_def go_abs_def go_quo_def word_sless_alt
             signed_divide_int_def)
    done
  then show ?thesis
    by (simp add: DistanceTo_min grid_10x8_def)
qed

lemma DistanceTo_10x8_region:
  "sint (DistanceTo \<lparr>Q = 0, R = 0\<rparr> \<lparr>Q = 9, R = 0\<rparr> (grid_10x8 TopologyRegion)) = 9"
  by (simp add: DistanceTo_min grid_10x8_def
        hexDistance_def go_abs_def go_quo_def word_sless_alt signed_divide_int_def)

lemma spec_world_distance_10x8:
  "spec_world_distance \<lparr>Q = 0, R = 0\<rparr> \<lparr>Q = 9, R = 0\<rparr> (config (grid_10x8 TopologyWorld)) = 4"
proof -
  have "(\<lambda>(dq, dr). sint (hexDistance \<lparr>Q = 0, R = 0\<rparr>
            (spec_shifted \<lparr>Q = 9, R = 0\<rparr> (config (grid_10x8 TopologyWorld)) dq dr)))
          ` ({- 1, 0, 1} \<times> {- 1, 0, 1}) = {4, 5, 13, 9, 17, 19, 22}"
    apply (simp only: nine_offsets image_insert image_empty prod.case spec_shifted_def)
    apply (simp add: grid_10x8_def ToOffset_def OffsetToAxial_def hexDistance_def go_abs_def
             go_quo_def word_sless_alt signed_divide_int_def)
    done
  then show ?thesis
    by (simp add: spec_world_distance_def)
qed

text \<open>
  Claim C4, as the code has it. \<open>DistanceTo\<close> on a Region grid is the hex distance; on a
  World grid it is the minimum of the hex distances from \<open>a\<close> to the nine replicas of \<open>b\<close>
  obtained by adding \<open>dq * width\<close> to \<open>q\<close> and \<open>dr * height\<close> to \<open>r\<close> in axial space, for
  \<open>dq\<close> and \<open>dr\<close> in \<open>{-1, 0, 1}\<close>. On the 10 by 8 grids the distance from \<open>(0, 0)\<close> to
  \<open>(9, 0)\<close> is 1 for World and 9 for Region.
\<close>

theorem DistanceTo_axial_replicas:
  "sint (DistanceTo a b g) =
     (if Topology (config g) = TopologyRegion then sint (hexDistance a b)
      else Min ((\<lambda>(dq, dr). sint (hexDistance a (axial_shifted b (config g) dq dr)))
                  ` ({- 1, 0, 1} \<times> {- 1, 0, 1})))
   \<and> sint (DistanceTo \<lparr>Q = 0, R = 0\<rparr> \<lparr>Q = 9, R = 0\<rparr> (grid_10x8 TopologyWorld)) = 1
   \<and> sint (DistanceTo \<lparr>Q = 0, R = 0\<rparr> \<lparr>Q = 9, R = 0\<rparr> (grid_10x8 TopologyRegion)) = 9"
  using DistanceTo_min [of a b g] DistanceTo_10x8_world DistanceTo_10x8_region
  by (simp only: simp_thms)

text \<open>
  With the replicas taken in offset space, as the claim words it, the minimum on the
  10 by 8 World grid from \<open>(0, 0)\<close> to \<open>(9, 0)\<close> is 4, not the 1 that \<open>DistanceTo\<close> returns.
\<close>

theorem DistanceTo_offset_replicas_counterexample:
  "sint (DistanceTo \<lparr>Q = 0, R = 0\<rparr> \<lparr>Q = 9, R = 0\<rparr> (grid_10x8 TopologyWorld))
     \<noteq> spec_world_distance \<lparr>Q = 0, R = 0\<rparr> \<lparr>Q = 9, R = 0\<rparr> (config (grid_10x8 TopologyWorld))"
  by (simp add: DistanceTo_10x8_world spec_world_distance_10x8)

section \<open>Loops\<close>

lemma for_loop_unfold:
  "for_loop a cond next body st =
     (if cond a then bind_outcome (body a st) (for_loop (next a) cond next body)
      else Returned st)"
proof (cases "cond a")
  case False
  then show ?thesis
    by (simp add: for_loop_def while_option_unfold [of _ _ "(a, Returned st)"])
next
  case True
  let ?b = "\<lambda>(v, r). is_Returned r \<and> cond v"
  let ?c = "\<lambda>(v, r). (next v, bind_outcome r (body v))"
  have step: "while_option ?b ?c (a, Returned st) = while_option ?b ?c (next a, body a st)"
    using True by (subst while_option_unfold) simp
  show ?thesis
  proof (cases "body a st")
    case (Returned st')
    then show ?thesis using True step by (simp add: for_loop_def)
  next
    case (Panics p)
    then show ?thesis using True step
      by (simp add: for_loop_def while_option_unfold [of _ _ "(next a, Panics p)"])
  next
    case Diverges
    then show ?thesis using True step
      by (simp add: for_loop_def while_option_unfold [of _ _ "(next a, Diverges)"])
  qed
qed

section \<open>Rounding to binary64\<close>

lemma binade_bounds:
  assumes "x \<noteq> 0"
  shows "2 powi (binade x) \<le> \<bar>x\<bar>" and "\<bar>x\<bar> < 2 powi (binade x + 1)"
proof -
  have "2 powi (binade x) \<le> \<bar>x\<bar> \<and> \<bar>x\<bar> < 2 powi (binade x + 1)"
  proof (cases "1 \<le> \<bar>x\<bar>")
    case True
    define n where "n = \<lfloor>\<bar>x\<bar>\<rfloor>"
    have n: "0 < n" using True by (simp add: n_def)
    have b: "2 ^ nat (bitlen n - 1) \<le> n" "n < 2 ^ nat (bitlen n)"
      using bitlen_bounds [OF n] by simp_all
    have bpos: "0 < bitlen n" using b(2) n by (cases "0 < bitlen n") auto
    have e: "binade x = bitlen n - 1" using True by (simp add: binade_def n_def)
    have "real_of_int (2 ^ nat (bitlen n - 1)) \<le> real_of_int n" using b(1) by linarith
    also have "\<dots> \<le> \<bar>x\<bar>" by (simp add: n_def)
    finally have lo: "2 powi (binade x) \<le> \<bar>x\<bar>"
      using bpos by (simp add: e power_int_def)
    have "n + 1 \<le> 2 ^ nat (bitlen n)" using b(2) by linarith
    then have "real_of_int (n + 1) \<le> real_of_int (2 ^ nat (bitlen n))" by linarith
    moreover have "\<bar>x\<bar> < real_of_int (n + 1)" by (simp add: n_def)
    ultimately have hi: "\<bar>x\<bar> < 2 powi (binade x + 1)"
      using bpos by (simp add: e power_int_def)
    from lo hi show ?thesis ..
  next
    case False
    define y where "y = 1 / \<bar>x\<bar>"
    have x: "0 < \<bar>x\<bar>" "\<bar>x\<bar> < 1" using assms False by simp_all
    have y1: "1 < y" using x by (simp add: y_def)
    define m where "m = \<lceil>y\<rceil> - 1"
    have m: "0 < m" using y1 by (simp add: m_def)
    have my: "real_of_int m < y" "y \<le> real_of_int m + 1"
      unfolding m_def by linarith+
    have b: "2 ^ nat (bitlen m - 1) \<le> m" "m < 2 ^ nat (bitlen m)"
      using bitlen_bounds [OF m] by simp_all
    have bpos: "0 < bitlen m" using b(2) m by (cases "0 < bitlen m") auto
    have e: "binade x = - bitlen m" using False by (simp add: binade_def m_def y_def)
    have "m + 1 \<le> 2 ^ nat (bitlen m)" using b(2) by linarith
    then have "real_of_int (m + 1) \<le> real_of_int (2 ^ nat (bitlen m))" by linarith
    then have yle: "y \<le> 2 ^ nat (bitlen m)" using my(2) by simp
    have "(2 :: real) ^ nat (bitlen m - 1) \<le> real_of_int m"
      using b(1) by (simp only: numeral_power_le_of_int_cancel_iff)
    then have ygt: "2 ^ nat (bitlen m - 1) < y" using my(1) by linarith
    have xy: "\<bar>x\<bar> = 1 / y" using x by (simp add: y_def)
    have "1 / 2 ^ nat (bitlen m) \<le> 1 / y"
      using yle y1 by (intro divide_left_mono) simp_all
    then have lo: "2 powi (binade x) \<le> \<bar>x\<bar>"
      using bpos by (simp add: e xy power_int_def field_simps)
    have "1 / y < 1 / 2 ^ nat (bitlen m - 1)"
      using ygt y1 by (intro divide_strict_left_mono) simp_all
    moreover have "(2 :: real) powi (binade x + 1) = 1 / 2 ^ nat (bitlen m - 1)"
    proof -
      have "(2 :: real) powi (binade x + 1) = 2 powi (- (bitlen m - 1))" by (simp add: e)
      also have "\<dots> = inverse (2 powi (bitlen m - 1))" by (rule power_int_minus)
      also have "\<dots> = 1 / 2 ^ nat (bitlen m - 1)"
        using bpos by (simp add: power_int_def inverse_eq_divide)
      finally show ?thesis .
    qed
    ultimately have hi: "\<bar>x\<bar> < 2 powi (binade x + 1)" by (simp add: xy)
    from lo hi show ?thesis ..
  qed
  then show "2 powi (binade x) \<le> \<bar>x\<bar>" and "\<bar>x\<bar> < 2 powi (binade x + 1)" by simp_all
qed

lemma round_even_of_int: "round_even (real_of_int n) = n"
  by (simp add: round_even_def)

lemma round_even_bounds:
  "real_of_int (round_even x) \<le> x + 1 / 2" "x - 1 / 2 \<le> real_of_int (round_even x)"
  unfolding round_even_def Let_def by (simp_all; linarith)+

lemma round_even_mono:
  assumes "x \<le> y"
  shows "round_even x \<le> round_even y"
proof (rule ccontr)
  assume "\<not> round_even x \<le> round_even y"
  then have "round_even y + 1 \<le> round_even x" by simp
  then have "real_of_int (round_even y) + 1 \<le> real_of_int (round_even x)" by linarith
  then have "x = y" using round_even_bounds(1) [of x] round_even_bounds(2) [of y] assms by linarith
  then show False using \<open>\<not> round_even x \<le> round_even y\<close> by simp
qed

lemma round_even_minus: "round_even (- x) = - round_even x"
proof -
  define n where "n = \<lfloor>x\<rfloor>"
  define d where "d = x - real_of_int n"
  have d: "0 \<le> d" "d < 1" unfolding d_def n_def by linarith+
  have x: "x = real_of_int n + d" by (simp add: d_def)
  show ?thesis
  proof (cases "d = 0")
    case True
    then show ?thesis using x by (simp add: round_even_of_int flip: of_int_minus)
  next
    case False
    then have "- x = real_of_int (- n - 1) + (1 - d)" using x by simp
    moreover have "0 \<le> 1 - d" "1 - d < 1" using d False by simp_all
    ultimately have f: "\<lfloor>- x\<rfloor> = - n - 1" by (intro floor_unique) linarith+
    have g: "- x - real_of_int (- n - 1) = 1 - d" using x by simp
    have h: "x - real_of_int \<lfloor>x\<rfloor> = d" by (simp add: d_def n_def)
    show ?thesis
      unfolding round_even_def Let_def f g h
      using d by (auto simp flip: n_def)
  qed
qed

lemma powi2_pos: "0 < (2 :: real) powi k"
  by simp

lemma round_f64_value:
  "round_f64 x = (if 2 ^ 1024 \<le> \<bar>f64_value x\<bar> then inf_of_sign x else Finite (f64_value x))"
  by (rule round_f64_def)

lemma binade_minus: "binade (- x) = binade x"
  by (simp add: binade_def)

lemma f64_value_minus: "f64_value (- x) = - f64_value x"
  by (simp add: f64_value_def binade_minus round_even_minus)

lemma f64_value_nonneg: "0 \<le> x \<Longrightarrow> 0 \<le> f64_value x"
proof -
  assume "0 \<le> x"
  then have "0 \<le> x / 2 powi (max (binade x) (- 1022) - 52)" by simp
  then have "round_even 0 \<le> round_even (x / 2 powi (max (binade x) (- 1022) - 52))"
    by (rule round_even_mono)
  then have "0 \<le> round_even (x / 2 powi (max (binade x) (- 1022) - 52))"
    using round_even_of_int [of 0] by simp
  then show ?thesis by (simp add: f64_value_def)
qed

lemma powi2_less_cancel:
  assumes "(2 :: real) powi a < 2 powi b"
  shows "a < b"
proof (rule ccontr)
  assume "\<not> a < b"
  then have "b \<le> a" by simp
  then have "(2 :: real) powi b \<le> 2 powi a" by (intro power_int_increasing) simp_all
  with assms show False by linarith
qed

lemma powi2_add: "(2 :: real) powi a * 2 powi b = 2 powi (a + b)"
  by (simp add: power_int_add)

lemma binade_mono:
  assumes "0 < x" and "x \<le> y"
  shows "binade x \<le> binade y"
proof -
  have "2 powi (binade x) \<le> \<bar>x\<bar>" using assms by (intro binade_bounds) simp
  also have "\<dots> \<le> \<bar>y\<bar>" using assms by simp
  also have "\<dots> < 2 powi (binade y + 1)" using assms by (intro binade_bounds) simp
  finally have "(2 :: real) powi (binade x) < 2 powi (binade y + 1)" .
  then have "binade x < binade y + 1" by (rule powi2_less_cancel)
  then show ?thesis by simp
qed

lemma f64_value_mono_pos:
  assumes "0 < x" and "x \<le> y"
  shows "f64_value x \<le> f64_value y"
proof -
  define E where "E = max (binade x) (- 1022)"
  define E' where "E' = max (binade y) (- 1022)"
  have le: "E \<le> E'" unfolding E_def E'_def using binade_mono [OF assms] by linarith
  have vx: "f64_value x = real_of_int (round_even (x / 2 powi (E - 52))) * 2 powi (E - 52)"
    using assms by (simp add: f64_value_def E_def)
  have vy: "f64_value y = real_of_int (round_even (y / 2 powi (E' - 52))) * 2 powi (E' - 52)"
    using assms by (simp add: f64_value_def E'_def)
  show ?thesis
  proof (cases "E = E'")
    case True
    have "x / 2 powi (E - 52) \<le> y / 2 powi (E - 52)"
      using assms by (simp add: divide_right_mono)
    then have "round_even (x / 2 powi (E - 52)) \<le> round_even (y / 2 powi (E - 52))"
      by (rule round_even_mono)
    then show ?thesis unfolding vx vy True [symmetric]
      by (intro mult_right_mono) simp_all
  next
    case False
    then have lt: "E + 1 \<le> E'" using le by simp
    then have ey: "E' = binade y" unfolding E'_def E_def by linarith
    have "x < 2 powi (E + 1)"
    proof -
      have "\<bar>x\<bar> < 2 powi (binade x + 1)" using assms by (intro binade_bounds) simp
      also have "\<dots> \<le> 2 powi (E + 1)"
        unfolding E_def by (intro power_int_increasing) simp_all
      finally show ?thesis using assms by simp
    qed
    then have "x / 2 powi (E - 52) < 2 powi (E + 1) / 2 powi (E - 52)"
      by (simp add: divide_strict_right_mono)
    also have "(2 :: real) powi (E + 1) / 2 powi (E - 52) = 2 powi 53"
      by (simp add: power_int_diff [symmetric])
    finally have "x / 2 powi (E - 52) \<le> real_of_int (2 ^ 53)"
      by (simp add: power_int_def)
    then have "round_even (x / 2 powi (E - 52)) \<le> round_even (real_of_int (2 ^ 53))"
      by (rule round_even_mono)
    then have "round_even (x / 2 powi (E - 52)) \<le> 2 ^ 53"
      by (simp only: round_even_of_int)
    then have "real_of_int (round_even (x / 2 powi (E - 52))) \<le> 2 powi 53"
      by (simp add: power_int_def)
    then have "f64_value x \<le> 2 powi 53 * 2 powi (E - 52)"
      unfolding vx by (intro mult_right_mono) simp_all
    also have "\<dots> = 2 powi (E + 1)"
      using powi2_add [of 53 "E - 52"] by (simp add: ac_simps)
    also have "\<dots> \<le> 2 powi E'"
      using lt by (intro power_int_increasing) simp_all
    finally have up: "f64_value x \<le> 2 powi E'" .
    have "2 powi E' \<le> \<bar>y\<bar>" unfolding ey using assms by (intro binade_bounds) simp
    then have "2 powi E' / 2 powi (E' - 52) \<le> y / 2 powi (E' - 52)"
      using assms by (simp add: divide_right_mono)
    moreover have "(2 :: real) powi E' / 2 powi (E' - 52) = real_of_int (2 ^ 52)"
    proof -
      have "(2 :: real) powi E' / 2 powi (E' - 52) = 2 powi 52"
        by (simp add: power_int_diff [symmetric])
      then show ?thesis by simp
    qed
    ultimately have "real_of_int (2 ^ 52) \<le> y / 2 powi (E' - 52)" by simp
    then have "round_even (real_of_int (2 ^ 52)) \<le> round_even (y / 2 powi (E' - 52))"
      by (rule round_even_mono)
    then have "2 ^ 52 \<le> round_even (y / 2 powi (E' - 52))"
      by (simp only: round_even_of_int)
    then have "2 powi 52 \<le> real_of_int (round_even (y / 2 powi (E' - 52)))"
      by (simp add: power_int_def)
    then have "2 powi 52 * 2 powi (E' - 52) \<le> f64_value y"
      unfolding vy by (intro mult_right_mono) simp_all
    moreover have "(2 :: real) powi 52 * 2 powi (E' - 52) = 2 powi E'"
      using powi2_add [of 52 "E' - 52"] by (simp add: ac_simps)
    ultimately show ?thesis using up by linarith
  qed
qed

lemma f64_value_mono:
  assumes "x \<le> y"
  shows "f64_value x \<le> f64_value y"
proof -
  consider "0 < x" | "y < 0" | "x \<le> 0" "0 \<le> y" by linarith
  then show ?thesis
  proof cases
    case 1
    then show ?thesis using assms by (rule f64_value_mono_pos)
  next
    case 2
    then have "f64_value (- y) \<le> f64_value (- x)"
      using assms by (intro f64_value_mono_pos) simp_all
    then show ?thesis by (simp add: f64_value_minus)
  next
    case 3
    have "0 \<le> f64_value (- x)" using 3(1) by (intro f64_value_nonneg) simp
    then have "f64_value x \<le> 0" by (simp add: f64_value_minus)
    moreover have "0 \<le> f64_value y" using 3(2) by (rule f64_value_nonneg)
    ultimately show ?thesis by linarith
  qed
qed

lemma powi2_le_cancel:
  assumes "(2 :: real) powi a \<le> 2 powi b"
  shows "a \<le> b"
proof (rule ccontr)
  assume "\<not> a \<le> b"
  then have "b < a" by simp
  then have "(2 :: real) powi b < 2 powi a" by (intro power_int_strict_increasing) simp_all
  with assms show False by linarith
qed

lemma powi2_diff: "(2 :: real) powi a / 2 powi b = 2 powi (a - b)"
  by (simp add: power_int_diff)

lemma f64_value_exact:
  assumes x: "x = real_of_int m * 2 powi k" and m: "\<bar>m\<bar> < 2 ^ 53" and k: "- 1074 \<le> k"
  shows "f64_value x = x"
proof (cases "x = 0")
  case True
  then show ?thesis by (simp add: f64_value_def)
next
  case False
  define E where "E = max (binade x) (- 1022)"
  have "2 powi (binade x) \<le> \<bar>x\<bar>" using False by (rule binade_bounds)
  also have "\<bar>x\<bar> = real_of_int \<bar>m\<bar> * 2 powi k" by (simp add: x abs_mult)
  also have "\<dots> < real_of_int (2 ^ 53) * 2 powi k"
    using m by (intro mult_strict_right_mono) (simp_all only: of_int_less_iff powi2_pos)
  also have "\<dots> = 2 powi (53 + k)"
    using powi2_add [of 53 k] by simp
  finally have "binade x < 53 + k" by (rule powi2_less_cancel)
  then have j: "0 \<le> k - (E - 52)" unfolding E_def using k by linarith
  have "x / 2 powi (E - 52) = real_of_int m * (2 powi k / 2 powi (E - 52))"
    by (simp add: x)
  also have "\<dots> = real_of_int m * 2 powi (k - (E - 52))"
    by (simp only: powi2_diff)
  also have "\<dots> = real_of_int m * 2 ^ nat (k - (E - 52))"
    using j by (simp add: power_int_def)
  also have "\<dots> = real_of_int (m * 2 ^ nat (k - (E - 52)))" by simp
  finally have q: "x / 2 powi (E - 52) = real_of_int (m * 2 ^ nat (k - (E - 52)))" .
  have "f64_value x = real_of_int (round_even (x / 2 powi (E - 52))) * 2 powi (E - 52)"
    using False by (simp add: f64_value_def E_def)
  also have "\<dots> = x / 2 powi (E - 52) * 2 powi (E - 52)"
    by (simp only: q round_even_of_int)
  also have "\<dots> = x" by simp
  finally show ?thesis .
qed

lemma f64_value_powi: "- 1074 \<le> k \<Longrightarrow> f64_value (2 powi k) = 2 powi k"
  using f64_value_exact [of "2 powi k" 1 k] by simp

lemma f64_value_abs_error:
  assumes "\<bar>x\<bar> \<le> 2 powi k" and "- 1022 \<le> k"
  shows "\<bar>f64_value x - x\<bar> \<le> 2 powi (k - 53)"
proof (cases "x = 0")
  case True
  then show ?thesis by (simp add: f64_value_def)
next
  case False
  define E where "E = max (binade x) (- 1022)"
  define q :: real where "q = 2 powi (E - 52)"
  have qpos: "0 < q" by (simp add: q_def)
  have "2 powi (binade x) \<le> \<bar>x\<bar>" using False by (rule binade_bounds)
  then have "(2 :: real) powi (binade x) \<le> 2 powi k" using assms(1) by linarith
  then have "binade x \<le> k" by (rule powi2_le_cancel)
  then have Ek: "E \<le> k" unfolding E_def using assms(2) by linarith
  have v: "f64_value x = real_of_int (round_even (x / q)) * q"
    using False by (simp add: f64_value_def E_def q_def)
  have "f64_value x - x = (real_of_int (round_even (x / q)) - x / q) * q"
    using qpos by (simp add: v algebra_simps)
  then have "\<bar>f64_value x - x\<bar> = \<bar>real_of_int (round_even (x / q)) - x / q\<bar> * q"
    using qpos by (simp add: abs_mult)
  also have "\<dots> \<le> 1 / 2 * q"
    using round_even_bounds [of "x / q"] qpos by (intro mult_right_mono) linarith+
  also have "\<dots> = 2 powi (E - 53)"
    using powi2_add [of "- 1" "E - 52"] by (simp add: q_def ac_simps)
  also have "\<dots> \<le> 2 powi (k - 53)"
    using Ek by (intro power_int_increasing) simp_all
  finally show ?thesis .
qed

lemma f64_value_le_powi:
  assumes "x \<le> 2 powi k" and "- 1074 \<le> k"
  shows "f64_value x \<le> 2 powi k"
  using f64_value_mono [OF assms(1)] f64_value_powi [OF assms(2)] by simp

lemma f64_value_ge_powi:
  assumes "2 powi k \<le> x" and "- 1074 \<le> k"
  shows "2 powi k \<le> f64_value x"
  using f64_value_mono [OF assms(1)] f64_value_powi [OF assms(2)] by simp

lemma round_f64_Finite:
  assumes "\<bar>x\<bar> \<le> 2 powi k" and "k \<le> 1023"
  shows "round_f64 x = Finite (f64_value x)"
proof -
  have up: "\<bar>x\<bar> \<le> 2 powi 1023"
  proof -
    have "(2 :: real) powi k \<le> 2 powi 1023" using assms(2) by (intro power_int_increasing) simp_all
    then show ?thesis using assms(1) by linarith
  qed
  have "x \<le> 2 powi 1023" using up by linarith
  then have 1: "f64_value x \<le> 2 powi 1023" by (rule f64_value_le_powi) simp
  have "- x \<le> 2 powi 1023" using up by linarith
  then have "f64_value (- x) \<le> 2 powi 1023" by (rule f64_value_le_powi) simp
  then have 2: "- f64_value x \<le> 2 powi 1023" by (simp only: f64_value_minus)
  have "(2 :: real) powi 1023 < 2 powi 1024" by (intro power_int_strict_increasing) simp_all
  moreover have "(2 :: real) powi 1024 = 2 ^ 1024" by (simp add: power_int_def)
  ultimately have "\<bar>f64_value x\<bar> < 2 ^ 1024" using 1 2 by linarith
  then show ?thesis by (simp add: round_f64_value)
qed

lemma round_f64_exact:
  assumes x: "x = real_of_int m * 2 powi k" and m: "\<bar>m\<bar> < 2 ^ 53" and k: "- 1074 \<le> k" "k \<le> 970"
  shows "round_f64 x = Finite x"
proof -
  have "\<bar>x\<bar> = real_of_int \<bar>m\<bar> * 2 powi k" by (simp add: x abs_mult)
  also have "\<dots> \<le> real_of_int (2 ^ 53) * 2 powi k"
    using m by (intro mult_right_mono) (simp_all only: of_int_le_iff, simp_all)
  also have "\<dots> = 2 powi (53 + k)"
    using powi2_add [of 53 k] by simp
  finally have "\<bar>x\<bar> \<le> 2 powi (53 + k)" .
  then have "round_f64 x = Finite (f64_value x)"
    by (rule round_f64_Finite) (use k in linarith)
  then show ?thesis using f64_value_exact [OF x m k(1)] by simp
qed

lemma round_f64_of_int:
  assumes "\<bar>m\<bar> < 2 ^ 53"
  shows "round_f64 (real_of_int m) = Finite (real_of_int m)"
  using round_f64_exact [of "real_of_int m" m 0] assms by simp

text \<open>
  A value with at most twenty binary places and absolute value below \<open>2\<^sup>3\<^sup>3\<close> is a
  binary64 number.
\<close>

lemma round_f64_dyadic:
  assumes "real_of_int \<lfloor>x * 1048576\<rfloor> = x * 1048576" and "\<bar>x\<bar> < 8589934592"
  shows "round_f64 x = Finite x"
proof -
  define m where "m = \<lfloor>x * 1048576\<rfloor>"
  have xm: "real_of_int m = x * 1048576" unfolding m_def by (rule assms(1))
  have p: "(2 :: real) powi (- 20) = 1 / 1048576" by (simp add: power_int_minus)
  have x: "x = real_of_int m * 2 powi (- 20)" unfolding p xm by simp
  have "\<bar>real_of_int m\<bar> < 9007199254740992"
    unfolding xm using assms(2) by (simp add: abs_mult)
  then have "\<bar>m\<bar> < 9007199254740992" by linarith
  then have m: "\<bar>m\<bar> < 2 ^ 53" by simp
  show ?thesis using x m by (rule round_f64_exact) simp_all
qed


text \<open>The rounding of a value with few binary places is decided without the binade.\<close>

lemma round_f64_code [code]:
  "round_f64 x =
     (if real_of_int \<lfloor>x * 1048576\<rfloor> = x * 1048576 \<and> \<bar>x\<bar> < 8589934592 then Finite x
      else if 2 ^ 1024 \<le> \<bar>f64_value x\<bar> then inf_of_sign x else Finite (f64_value x))"
  using round_f64_dyadic [of x] by (simp add: round_f64_def)

section \<open>A run of the generator\<close>

lemma DiamondSquare_quarter:
  "DiamondSquare quarter_source 3 (Finite (1 / 2)) 42 =
     Returned
       [[Finite (- (1 / 2)), Finite (- (11 / 16)), Finite (- (1 / 2))],
        [Finite (- (11 / 16)), Finite (- (3 / 4)), Finite (- (55 / 64))],
        [Finite (- (1 / 2)), Finite (- (55 / 64)), Finite (- (1 / 2))]]"
  by code_simp

lemma octave_cells_quarter:
  "for_loop 0 (\<lambda>y. y <s 2) (\<lambda>y. y + 1)
     (\<lambda>y. for_loop 0 (\<lambda>x. x <s 2) (\<lambda>x. x + 1)
        (octave_cell
           [[Finite (- (1 / 2)), Finite (- (11 / 16)), Finite (- (1 / 2))],
            [Finite (- (11 / 16)), Finite (- (3 / 4)), Finite (- (55 / 64))],
            [Finite (- (1 / 2)), Finite (- (55 / 64)), Finite (- (1 / 2))]]
           3 (Finite 1) (Finite 1) y))
     [[Finite 0, Finite 0], [Finite 0, Finite 0]] =
   Returned [[Finite (- (1 / 2)), Finite (- (11 / 16))], [Finite (- (11 / 16)), Finite (- (3 / 4))]]"
  by code_simp

lemma MultiOctaveNoise_quarter:
  "MultiOctaveNoise quarter_source 2 2 1 (Finite (1 / 2)) (Finite 2) (Finite 1) 42 =
     Returned [[Finite (- (1 / 2)), Finite (- (11 / 16))], [Finite (- (11 / 16)), Finite (- (3 / 4))]]"
proof -
  have n: "nextPowerOfTwoPlusOne (go_max 2 2) = Returned 3"
    by code_simp
  have r: "replicate (nat (sint (2 :: go_int))) (replicate (nat (sint (2 :: go_int))) (Finite 0)) =
      [[Finite 0, Finite 0], [Finite 0, Finite 0]]"
    by (simp add: numeral_2_eq_2)
  have b: "octave_body quarter_source 3 2 2 (Finite (1 / 2)) (Finite 2) 42 0
             ([[Finite 0, Finite 0], [Finite 0, Finite 0]], Finite 1, Finite 1, Finite 0) =
           Returned ([[Finite (- (1 / 2)), Finite (- (11 / 16))],
                      [Finite (- (11 / 16)), Finite (- (3 / 4))]],
                     Finite (1 / 2), Finite 2, Finite 1)"
    by (simp add: octave_body_def DiamondSquare_quarter octave_cells_quarter round_f64_dyadic)
  have l: "for_loop 0 (\<lambda>octave. octave <s 1) (\<lambda>octave. octave + 1)
             (octave_body quarter_source 3 2 2 (Finite (1 / 2)) (Finite 2) 42)
             ([[Finite 0, Finite 0], [Finite 0, Finite 0]], Finite 1, Finite 1, Finite 0) =
           Returned ([[Finite (- (1 / 2)), Finite (- (11 / 16))],
                      [Finite (- (11 / 16)), Finite (- (3 / 4))]],
                     Finite (1 / 2), Finite 2, Finite 1)"
    by (subst for_loop_unfold, simp add: b word_sless_alt, subst for_loop_unfold,
        simp add: word_sless_alt)
  have g: "\<not> (2 :: go_int) <s 0"
    by (simp add: word_sless_alt)
  show ?thesis
    by (simp only: MultiOctaveNoise_def n bind_outcome.simps g if_False simp_thms r l prod.case)
       (simp add: round_f64_dyadic)
qed

lemma ApplyHypsometricCurve_quarter:
  "ApplyHypsometricCurve
     [[Finite (- (1 / 2)), Finite (- (11 / 16))], [Finite (- (11 / 16)), Finite (- (3 / 4))]]
     (Finite (1 / 10)) =
   Returned [[Finite (- 6000), Finite (- (499125 / 32))],
             [Finite (- (499125 / 32)), Finite (- 20250)]]"
  by code_simp

lemma HeightmapToHexTiles_quarter:
  "HeightmapToHexTiles
     [[Finite (- 6000), Finite (- (499125 / 32))], [Finite (- (499125 / 32)), Finite (- 20250)]]
     grid_2x2 (Finite 0) =
     Returned
       [\<lparr>Coordinates = \<lparr>Q = 0, R = 0\<rparr>, Elevation = Finite (- 6000), IsLand = False,
          DistanceToWater = Finite 0\<rparr>,
        \<lparr>Coordinates = \<lparr>Q = 1, R = - 1\<rparr>, Elevation = Finite (- (499125 / 32)),
          IsLand = False, DistanceToWater = Finite 0\<rparr>,
        \<lparr>Coordinates = \<lparr>Q = 0, R = 1\<rparr>, Elevation = Finite (- (499125 / 32)),
          IsLand = False, DistanceToWater = Finite 0\<rparr>,
        \<lparr>Coordinates = \<lparr>Q = 1, R = 0\<rparr>, Elevation = Finite (- 20250), IsLand = False,
          DistanceToWater = Finite 0\<rparr>]"
  by code_simp

lemma GenerateTerrain_quarter:
  "GenerateTerrain quarter_source grid_2x2 one_octave_config =
     Returned (Inr
       [\<lparr>Coordinates = \<lparr>Q = 0, R = 0\<rparr>, Elevation = Finite (- 6000), IsLand = False,
          DistanceToWater = Finite 0\<rparr>,
        \<lparr>Coordinates = \<lparr>Q = 1, R = - 1\<rparr>, Elevation = Finite (- (499125 / 32)),
          IsLand = False, DistanceToWater = Finite 0\<rparr>,
        \<lparr>Coordinates = \<lparr>Q = 0, R = 1\<rparr>, Elevation = Finite (- (499125 / 32)),
          IsLand = False, DistanceToWater = Finite 0\<rparr>,
        \<lparr>Coordinates = \<lparr>Q = 1, R = 0\<rparr>, Elevation = Finite (- 20250), IsLand = False,
          DistanceToWater = Finite 0\<rparr>])"
proof -
  have v: "Validate one_octave_config = None"
    by code_simp
  have c: "AllCoords grid_2x2 = [\<lparr>Q = 0, R = 0\<rparr>, \<lparr>Q = 1, R = - 1\<rparr>, \<lparr>Q = 0, R = 1\<rparr>, \<lparr>Q = 1, R = 0\<rparr>]"
    by code_simp
  have d: "calculateGridDimensions
             [\<lparr>Q = 0, R = 0\<rparr>, \<lparr>Q = 1, R = - 1\<rparr>, \<lparr>Q = 0, R = 1\<rparr>, \<lparr>Q = 1, R = 0\<rparr>] = (2, 2)"
    by code_simp
  have p: "NoiseParams one_octave_config =
      \<lparr>Octaves = 1, Persistence = Finite (1 / 2), Lacunarity = Finite 2,
       Scale = Finite 1, HurstExp = Finite (85 / 100)\<rparr>"
     "Seed one_octave_config = 42" "LandRatio one_octave_config = Finite (1 / 10)"
     "SeaLevel one_octave_config = Finite 0"
    by (simp_all add: one_octave_config_def)
  show ?thesis
    unfolding GenerateTerrain_def v c Let_def
    by (simp add: d p GenerateHeightmap_def MultiOctaveNoise_quarter
          ApplyHypsometricCurve_quarter HeightmapToHexTiles_quarter)
qed

section \<open>Land and water\<close>

lemma bind_outcome_Returned:
  "bind_outcome m f = Returned y \<longleftrightarrow> (\<exists>x. m = Returned x \<and> f x = Returned y)"
  by (cases m) simp_all

lemma map_outcome_Returned:
  "map_outcome f xs = Returned ys \<Longrightarrow> y \<in> set ys \<Longrightarrow> \<exists>x \<in> set xs. f x = Returned y"
proof (induction xs arbitrary: ys)
  case Nil
  then show ?case by simp
next
  case (Cons x xs)
  from Cons.prems(1) obtain z zs where
    z: "f x = Returned z" and zs: "map_outcome f xs = Returned zs" and ys: "ys = z # zs"
    by (cases "f x"; cases "map_outcome f xs") auto
  show ?case
  proof (cases "y = z")
    case True
    then show ?thesis using z by simp
  next
    case False
    then have "y \<in> set zs" using Cons.prems(2) ys by simp
    then show ?thesis using Cons.IH [OF zs] by auto
  qed
qed

lemma HeightmapToHexTiles_body_IsLand:
  assumes "HeightmapToHexTiles_body heightmap width height seaLevel coord = Returned t"
  shows "IsLand t \<longleftrightarrow> f_gt (Elevation t) seaLevel"
proof -
  obtain col row where off: "ToOffset coord = (col, row)" by (cases "ToOffset coord")
  from assms off obtain line elevation where
    "t = ClassifyLandWater
           \<lparr>Coordinates = coord, Elevation = elevation, IsLand = False,
            DistanceToWater = Finite 0\<rparr> seaLevel"
    unfolding HeightmapToHexTiles_body_def Let_def
    by (auto simp: bind_outcome_Returned split: if_splits)
  then show ?thesis by (simp add: ClassifyLandWater_def)
qed

lemma HeightmapToHexTiles_IsLand:
  assumes "HeightmapToHexTiles heightmap grid seaLevel = Returned ts" and "t \<in> set ts"
  shows "IsLand t \<longleftrightarrow> f_gt (Elevation t) seaLevel"
proof -
  from assms obtain coord width height where
    "HeightmapToHexTiles_body heightmap width height seaLevel coord = Returned t"
    unfolding HeightmapToHexTiles_def Let_def by (blast dest: map_outcome_Returned)
  then show ?thesis by (rule HeightmapToHexTiles_body_IsLand)
qed

lemma GenerateTerrain_tiles:
  assumes "GenerateTerrain src grid cfg = Returned (Inr ts)"
  shows "\<exists>heightmap. HeightmapToHexTiles heightmap grid (SeaLevel cfg) = Returned ts"
  using assms unfolding GenerateTerrain_def Let_def
  by (auto simp: bind_outcome_Returned split: option.splits if_splits prod.splits)

text \<open>
  Claim C9. Every tile of a sequence that \<open>HeightmapToHexTiles\<close> returns, and so every tile
  that \<open>GenerateTerrain\<close> returns, has \<open>is_land\<close> set if and only if its elevation is
  strictly greater than the sea level.
\<close>

theorem IsLand_iff_above_sea_level:
  "(HeightmapToHexTiles heightmap grid seaLevel = Returned ts \<longrightarrow>
      (\<forall>t \<in> set ts. IsLand t \<longleftrightarrow> f_gt (Elevation t) seaLevel))
   \<and> (GenerateTerrain src grid' cfg = Returned (Inr ts') \<longrightarrow>
      (\<forall>t \<in> set ts'. IsLand t \<longleftrightarrow> f_gt (Elevation t) (SeaLevel cfg)))"
proof (intro conjI impI ballI)
  fix t
  assume "HeightmapToHexTiles heightmap grid seaLevel = Returned ts" and "t \<in> set ts"
  then show "IsLand t \<longleftrightarrow> f_gt (Elevation t) seaLevel"
    by (rule HeightmapToHexTiles_IsLand)
next
  fix t
  assume "GenerateTerrain src grid' cfg = Returned (Inr ts')" and t: "t \<in> set ts'"
  then obtain hm where "HeightmapToHexTiles hm grid' (SeaLevel cfg) = Returned ts'"
    using GenerateTerrain_tiles by blast
  then show "IsLand t \<longleftrightarrow> f_gt (Elevation t) (SeaLevel cfg)"
    using t by (rule HeightmapToHexTiles_IsLand)
qed


lemma HeightmapToHexTiles_test:
  "HeightmapToHexTiles test_heightmap grid_3x2 (Finite 0) =
     Returned
       [\<lparr>Coordinates = \<lparr>Q = 0, R = 0\<rparr>, Elevation = Finite (- 100), IsLand = False,
          DistanceToWater = Finite 0\<rparr>,
        \<lparr>Coordinates = \<lparr>Q = 1, R = - 1\<rparr>, Elevation = Finite 200, IsLand = True,
          DistanceToWater = Finite 0\<rparr>,
        \<lparr>Coordinates = \<lparr>Q = 2, R = - 1\<rparr>, Elevation = Finite 1500, IsLand = True,
          DistanceToWater = Finite 0\<rparr>,
        \<lparr>Coordinates = \<lparr>Q = 0, R = 1\<rparr>, Elevation = Finite (- 50), IsLand = False,
          DistanceToWater = Finite 0\<rparr>,
        \<lparr>Coordinates = \<lparr>Q = 1, R = 0\<rparr>, Elevation = Finite 0, IsLand = False,
          DistanceToWater = Finite 0\<rparr>,
        \<lparr>Coordinates = \<lparr>Q = 2, R = 0\<rparr>, Elevation = Finite 800, IsLand = True,
          DistanceToWater = Finite 0\<rparr>]"
  by code_simp


theorem IsLand_iff_above_sea_level_witness:
  "HeightmapToHexTiles test_heightmap grid_3x2 (Finite 0) =
     Returned
       [\<lparr>Coordinates = \<lparr>Q = 0, R = 0\<rparr>, Elevation = Finite (- 100), IsLand = False,
          DistanceToWater = Finite 0\<rparr>,
        \<lparr>Coordinates = \<lparr>Q = 1, R = - 1\<rparr>, Elevation = Finite 200, IsLand = True,
          DistanceToWater = Finite 0\<rparr>,
        \<lparr>Coordinates = \<lparr>Q = 2, R = - 1\<rparr>, Elevation = Finite 1500, IsLand = True,
          DistanceToWater = Finite 0\<rparr>,
        \<lparr>Coordinates = \<lparr>Q = 0, R = 1\<rparr>, Elevation = Finite (- 50), IsLand = False,
          DistanceToWater = Finite 0\<rparr>,
        \<lparr>Coordinates = \<lparr>Q = 1, R = 0\<rparr>, Elevation = Finite 0, IsLand = False,
          DistanceToWater = Finite 0\<rparr>,
        \<lparr>Coordinates = \<lparr>Q = 2, R = 0\<rparr>, Elevation = Finite 800, IsLand = True,
          DistanceToWater = Finite 0\<rparr>]
   \<and> (IsLand \<lparr>Coordinates = \<lparr>Q = 1, R = - 1\<rparr>, Elevation = Finite 200, IsLand = True,
          DistanceToWater = Finite 0\<rparr> \<longleftrightarrow> f_gt (Finite 200) (Finite 0))
   \<and> GenerateTerrain quarter_source grid_2x2 one_octave_config =
     Returned (Inr
       [\<lparr>Coordinates = \<lparr>Q = 0, R = 0\<rparr>, Elevation = Finite (- 6000), IsLand = False,
          DistanceToWater = Finite 0\<rparr>,
        \<lparr>Coordinates = \<lparr>Q = 1, R = - 1\<rparr>, Elevation = Finite (- (499125 / 32)),
          IsLand = False, DistanceToWater = Finite 0\<rparr>,
        \<lparr>Coordinates = \<lparr>Q = 0, R = 1\<rparr>, Elevation = Finite (- (499125 / 32)),
          IsLand = False, DistanceToWater = Finite 0\<rparr>,
        \<lparr>Coordinates = \<lparr>Q = 1, R = 0\<rparr>, Elevation = Finite (- 20250), IsLand = False,
          DistanceToWater = Finite 0\<rparr>])
   \<and> (IsLand \<lparr>Coordinates = \<lparr>Q = 1, R = 0\<rparr>, Elevation = Finite (- 20250), IsLand = False,
          DistanceToWater = Finite 0\<rparr> \<longleftrightarrow> f_gt (Finite (- 20250)) (SeaLevel one_octave_config))"
  using IsLand_iff_above_sea_level
          [of test_heightmap grid_3x2 "Finite 0" _ quarter_source grid_2x2 one_octave_config]
        HeightmapToHexTiles_test GenerateTerrain_quarter
  by (simp add: one_octave_config_def f_gt_def)

section \<open>Determinism\<close>

lemma bind_outcome_cong_ext:
  assumes "\<And>x. f x = g x"
  shows "bind_outcome m f = bind_outcome m g"
  using assms by (cases m) simp_all

text \<open>
  A counting loop depends on its body only at the indices \<open>i, i + 1, ...\<close> below the
  bound.
\<close>

lemma for_loop_count_cong_from:
  assumes "0 \<le> i" and "i \<le> sint n"
    and "\<And>j st. i \<le> j \<Longrightarrow> j < sint n \<Longrightarrow> body1 (word_of_int j) st = body2 (word_of_int j) st"
  shows "for_loop (word_of_int i) (\<lambda>j. j <s n) (\<lambda>j. j + 1) body1 st =
         for_loop (word_of_int i) (\<lambda>j. j <s (n :: go_int)) (\<lambda>j. j + 1) body2 st"
  using assms
proof (induction "nat (sint n - i)" arbitrary: i st)
  case 0
  then have "i = sint n" by simp
  then have stop: "\<not> (word_of_int i :: go_int) <s n" by (simp add: word_sless_alt)
  have "for_loop (word_of_int i) (\<lambda>j. j <s n) (\<lambda>j. j + 1) body st = Returned st"
    for body :: "go_int \<Rightarrow> 'a \<Rightarrow> 'a outcome"
    by (subst for_loop_unfold) (simp only: stop if_False)
  then show ?case by (simp only:)
next
  case (Suc k)
  then have lt: "i < sint n" by linarith
  have n63: "sint n < 9223372036854775808" using sint_bounds_64 (2) [of n] .
  have si: "sint (word_of_int i :: go_int) = i"
    using Suc.prems(1) lt n63 by (intro sint_word_of_int_64) linarith+
  have cond: "(word_of_int i :: go_int) <s n"
    using lt by (simp add: word_sless_alt si)
  have nxt: "(word_of_int i :: go_int) + 1 = word_of_int (i + 1)" by simp
  have body: "body1 (word_of_int i) st = body2 (word_of_int i) st"
    using lt by (intro Suc.prems(3)) simp_all
  have rest: "for_loop (word_of_int (i + 1)) (\<lambda>j. j <s n) (\<lambda>j. j + 1) body1 st' =
         for_loop (word_of_int (i + 1)) (\<lambda>j. j <s n) (\<lambda>j. j + 1) body2 st'" for st'
  proof (rule Suc.hyps(1))
    show "k = nat (sint n - (i + 1))" using Suc.hyps(2) by linarith
    show "0 \<le> i + 1" using Suc.prems(1) by simp
    show "i + 1 \<le> sint n" using lt by simp
    fix j st''
    assume "i + 1 \<le> j" "j < sint n"
    then show "body1 (word_of_int j) st'' = body2 (word_of_int j) st''"
      by (intro Suc.prems(3)) simp_all
  qed
  have step: "for_loop (word_of_int i) (\<lambda>j. j <s n) (\<lambda>j. j + 1) body st =
      bind_outcome (body (word_of_int i) st)
        (for_loop (word_of_int (i + 1)) (\<lambda>j. j <s n) (\<lambda>j. j + 1) body)"
    for body :: "go_int \<Rightarrow> 'a \<Rightarrow> 'a outcome"
    by (subst for_loop_unfold) (simp only: cond if_True nxt)
  have "bind_outcome (body1 (word_of_int i) st)
        (for_loop (word_of_int (i + 1)) (\<lambda>j. j <s n) (\<lambda>j. j + 1) body1) =
      bind_outcome (body2 (word_of_int i) st)
        (for_loop (word_of_int (i + 1)) (\<lambda>j. j <s n) (\<lambda>j. j + 1) body2)"
    unfolding body by (rule bind_outcome_cong_ext) (rule rest)
  then show ?case by (simp only: step)
qed

lemma for_loop_count_cong:
  assumes "\<And>j st. 0 \<le> j \<Longrightarrow> j < sint n \<Longrightarrow> body1 (word_of_int j) st = body2 (word_of_int j) st"
  shows "for_loop 0 (\<lambda>j. j <s n) (\<lambda>j. j + 1) body1 st =
         for_loop 0 (\<lambda>j. j <s (n :: go_int)) (\<lambda>j. j + 1) body2 st"
proof (cases "0 \<le> sint n")
  case True
  have "for_loop (word_of_int 0) (\<lambda>j. j <s n) (\<lambda>j. j + 1) body1 st =
         for_loop (word_of_int 0) (\<lambda>j. j <s n) (\<lambda>j. j + 1) body2 st"
    using True assms by (intro for_loop_count_cong_from) simp_all
  then show ?thesis by simp
next
  case False
  then have stop: "\<not> (0 :: go_int) <s n" by (simp add: word_sless_alt)
  have "for_loop 0 (\<lambda>j. j <s n) (\<lambda>j. j + 1) body st = Returned st"
    for body :: "go_int \<Rightarrow> 'a \<Rightarrow> 'a outcome"
    by (subst for_loop_unfold) (simp only: stop if_False)
  then show ?thesis by (simp only:)
qed

text \<open>
  \<open>DiamondSquare\<close> reads the generator that it creates from its seed and no other: its
  result depends on the source of the generators through the sequence for that seed only.
\<close>

lemma DiamondSquare_seeded:
  assumes "src1 seed = src2 seed"
  shows "DiamondSquare src1 sz roughness seed = DiamondSquare src2 sz roughness seed"
  using assms by (simp add: DiamondSquare_def)

lemma MultiOctaveNoise_seeded:
  assumes "\<And>k. 0 \<le> k \<Longrightarrow> k < sint octaves \<Longrightarrow>
             src1 (seed + word_of_int k * 1000) = src2 (seed + word_of_int k * 1000)"
  shows "MultiOctaveNoise src1 width height octaves persistence lacunarity scale seed =
         MultiOctaveNoise src2 width height octaves persistence lacunarity scale seed"
proof -
  have body: "octave_body src1 noiseSize width height persistence lacunarity seed (word_of_int k) st =
      octave_body src2 noiseSize width height persistence lacunarity seed (word_of_int k) st"
    if "0 \<le> k" "k < sint octaves" for noiseSize k st
  proof -
    have "DiamondSquare src1 noiseSize (Finite (1 / 2)) (seed + word_of_int k * 1000) =
          DiamondSquare src2 noiseSize (Finite (1 / 2)) (seed + word_of_int k * 1000)"
      using assms [OF that] by (rule DiamondSquare_seeded)
    then show ?thesis by (simp add: octave_body_def)
  qed
  have loop: "for_loop 0 (\<lambda>octave. octave <s octaves) (\<lambda>octave. octave + 1)
        (octave_body src1 noiseSize width height persistence lacunarity seed) st =
      for_loop 0 (\<lambda>octave. octave <s octaves) (\<lambda>octave. octave + 1)
        (octave_body src2 noiseSize width height persistence lacunarity seed) st"
    for noiseSize st
    by (rule for_loop_count_cong) (rule body)
  show ?thesis by (simp only: MultiOctaveNoise_def loop)
qed

text \<open>
  Claim C1. Two calls of \<open>GenerateTerrain\<close> are two runs of its code in two states of the
  program: the grids \<open>g1\<close> and \<open>g2\<close> and the sources \<open>src1\<close> and \<open>src2\<close>, what the generators
  of the standard library yield in the first and in the second call. The calls have the
  same grid configuration and the same terrain configuration. A generator that
  \<open>rand.New(rand.NewSource(s))\<close> creates yields a sequence that the seed \<open>s\<close> determines: so
  the two sources agree on the seeds \<open>Seed + 1000 k\<close> of the octaves \<open>k\<close>, and on nothing
  else. Then the two calls have the same outcome, the same tiles in the same order:
  \<open>DiamondSquare\<close> draws from a generator created anew from its seed in every call, and
  nothing that the calls do not share is read: not the cells of the grid, not its
  coordinate map, not a generator for another seed.
\<close>

theorem GenerateTerrain_deterministic:
  fixes g1 :: "'a Grid" and g2 :: "'b Grid"
  assumes "config g1 = config g2"
    and "\<forall>k. 0 \<le> k \<and> k < sint (Octaves (NoiseParams cfg)) \<longrightarrow>
           src1 (Seed cfg + word_of_int k * 1000) = src2 (Seed cfg + word_of_int k * 1000)"
  shows "GenerateTerrain src1 g1 cfg = GenerateTerrain src2 g2 cfg"
proof -
  have coords: "AllCoords g1 = AllCoords g2"
    using assms(1) by (simp add: AllCoords_def)
  have tiles: "HeightmapToHexTiles heightmap g1 seaLevel = HeightmapToHexTiles heightmap g2 seaLevel"
    for heightmap seaLevel
    by (simp add: HeightmapToHexTiles_def coords)
  have noise: "GenerateHeightmap src1 width height (NoiseParams cfg) (Seed cfg) =
      GenerateHeightmap src2 width height (NoiseParams cfg) (Seed cfg)" for width height
    unfolding GenerateHeightmap_def using assms(2) by (intro MultiOctaveNoise_seeded) simp
  show ?thesis
    unfolding GenerateTerrain_def coords tiles noise by (rule refl)
qed

theorem GenerateTerrain_deterministic_witness:
  "config grid_2x2 = config (grid_2x2\<lparr>tiles := [[Some ()]], coordMap := (\<lambda>c. False)\<rparr>)
   \<and> sint (Octaves (NoiseParams one_octave_config)) = 1
   \<and> quarter_source (Seed one_octave_config + word_of_int 0 * 1000) =
       other_source (Seed one_octave_config + word_of_int 0 * 1000)
   \<and> quarter_source 0 \<noteq> other_source 0
   \<and> GenerateTerrain quarter_source grid_2x2 one_octave_config =
       GenerateTerrain other_source
         (grid_2x2\<lparr>tiles := [[Some ()]], coordMap := (\<lambda>c. False)\<rparr>) one_octave_config
   \<and> GenerateTerrain other_source
         (grid_2x2\<lparr>tiles := [[Some ()]], coordMap := (\<lambda>c. False)\<rparr>) one_octave_config =
     Returned (Inr
       [\<lparr>Coordinates = \<lparr>Q = 0, R = 0\<rparr>, Elevation = Finite (- 6000), IsLand = False,
          DistanceToWater = Finite 0\<rparr>,
        \<lparr>Coordinates = \<lparr>Q = 1, R = - 1\<rparr>, Elevation = Finite (- (499125 / 32)),
          IsLand = False, DistanceToWater = Finite 0\<rparr>,
        \<lparr>Coordinates = \<lparr>Q = 0, R = 1\<rparr>, Elevation = Finite (- (499125 / 32)),
          IsLand = False, DistanceToWater = Finite 0\<rparr>,
        \<lparr>Coordinates = \<lparr>Q = 1, R = 0\<rparr>, Elevation = Finite (- 20250), IsLand = False,
          DistanceToWater = Finite 0\<rparr>])"
proof -
  have h1: "config grid_2x2 = config (grid_2x2\<lparr>tiles := [[Some ()]], coordMap := (\<lambda>c. False)\<rparr>)"
    by simp
  have oct: "sint (Octaves (NoiseParams one_octave_config)) = 1"
    by (simp add: one_octave_config_def)
  have same: "quarter_source (Seed one_octave_config + word_of_int 0 * 1000) =
       other_source (Seed one_octave_config + word_of_int 0 * 1000)"
    by (simp add: one_octave_config_def quarter_source_def other_source_def fun_eq_iff)
  have differ: "quarter_source 0 \<noteq> other_source 0"
    by (simp add: quarter_source_def other_source_def fun_eq_iff)
  have h2: "\<forall>k. 0 \<le> k \<and> k < sint (Octaves (NoiseParams one_octave_config)) \<longrightarrow>
      quarter_source (Seed one_octave_config + word_of_int k * 1000) =
      other_source (Seed one_octave_config + word_of_int k * 1000)"
  proof (intro allI impI)
    fix k :: int
    assume "0 \<le> k \<and> k < sint (Octaves (NoiseParams one_octave_config))"
    then have "k = 0" unfolding oct by linarith
    then show "quarter_source (Seed one_octave_config + word_of_int k * 1000) =
      other_source (Seed one_octave_config + word_of_int k * 1000)"
      using same by simp
  qed
  from GenerateTerrain_deterministic [OF h1 h2] GenerateTerrain_quarter
  show ?thesis using h1 oct same differ by (simp only: simp_thms)
qed

section \<open>Sizes that are a power of two plus one\<close>

lemma and_pred_zero_power_of_two:
  fixes n :: nat
  assumes "0 < n" and "n AND (n - 1) = 0"
  shows "\<exists>k. n = 2 ^ k"
  using assms
proof (induction n rule: less_induct)
  case (less n)
  show ?case
  proof (cases "even n")
    case True
    then obtain m where m: "n = 2 * m" by (elim evenE)
    with less.prems have mpos: "0 < m" by simp
    have odd_pred: "odd (n - 1)" using True less.prems(1) by simp
    have "(n - 1) div 2 = m - 1" using m mpos by (cases m) simp_all
    then have "n AND (n - 1) = 2 * (m AND (m - 1))"
      using True m by (subst and_nat_rec) simp
    with less.prems(2) have "m AND (m - 1) = 0" by simp
    moreover have "m < n" using m mpos by simp
    ultimately obtain k where "m = 2 ^ k" using less.IH mpos by blast
    then have "n = 2 ^ Suc k" using m by simp
    then show ?thesis by blast
  next
    case False
    then obtain m where m: "n = 2 * m + 1" by (elim oddE)
    have "n AND (n - 1) = 2 * m"
      using m by (subst and_nat_rec) simp
    with less.prems(2) have "m = 0" by simp
    then have "n = 2 ^ 0" using m by simp
    then show ?thesis by blast
  qed
qed

lemma isPowerOfTwoPlusOne_form:
  assumes "isPowerOfTwoPlusOne n"
  shows "\<exists>k. 1 \<le> k \<and> sint n = 2 ^ k + 1"
proof -
  define m where "m = n - 1"
  from assms have n3: "3 \<le> sint n" and mpos: "0 < sint m" and mand: "m AND (m - 1) = 0"
    by (simp_all add: isPowerOfTwoPlusOne_def m_def Let_def word_sless_alt split: if_splits)
  have "sint n < 9223372036854775808" using sint_bounds_64 by simp
  have "m = word_of_int (sint n - 1)" by (simp add: m_def)
  then have sm: "sint m = sint n - 1"
    using n3 \<open>sint n < 9223372036854775808\<close>
    by (simp only:) (rule sint_word_of_int_64; linarith)
  have m0: "m \<noteq> 0" using mpos by auto
  have "sint m < 2 ^ 64"
    using sint_bounds_64 (2) [of m] by simp
  then have "take_bit 64 (sint m) = sint m"
    using mpos by (intro take_bit_int_eq_self) simp_all
  then have "uint m = sint m"
    using uint_sint [of m] by simp
  then have um: "int (unat m) = sint m"
    unfolding uint_nat .
  have "unat m AND (unat m - 1) = unat (m AND (m - 1))"
    using m0 by (simp add: unsigned_and_eq unat_minus_one)
  then have "unat m AND (unat m - 1) = 0" using mand by simp
  moreover have "0 < unat m" using m0 by (simp add: unat_gt_0)
  ultimately obtain k where k: "unat m = 2 ^ k"
    using and_pred_zero_power_of_two by blast
  then have "sint m = 2 ^ k" using um by simp
  then have "sint n = 2 ^ k + 1" using sm by simp
  moreover have "1 \<le> k"
  proof (rule ccontr)
    assume "\<not> 1 \<le> k"
    then have "k = 0" by simp
    then show False using \<open>sint n = 2 ^ k + 1\<close> n3 by simp
  qed
  ultimately show ?thesis by blast
qed

section \<open>Diamond-Square on an invalid size\<close>

text \<open>
  Claim C7, as the code has it. For every size that is not of the form \<open>2 ^ k + 1\<close> with
  \<open>k\<close> at least 1, and every roughness, seed and generator, \<open>DiamondSquare\<close> does not
  return: it panics with the message on the size. The failure is a panic, not a returned
  error value (the function returns the heightmap alone).
\<close>

theorem DiamondSquare_invalid_size_panics:
  assumes "\<not> (\<exists>k. 1 \<le> k \<and> sint sz = 2 ^ k + 1)"
  shows "DiamondSquare src sz roughness seed = Panics (PanicMessage size_message)"
proof -
  have "\<not> isPowerOfTwoPlusOne sz"
    using assms isPowerOfTwoPlusOne_form by blast
  then show ?thesis by (simp add: DiamondSquare_def)
qed

theorem DiamondSquare_invalid_size_panics_witness:
  "\<not> (\<exists>k. 1 \<le> k \<and> sint (100 :: go_int) = 2 ^ k + 1)
   \<and> DiamondSquare quarter_source 100 (Finite (1 / 2)) 42 = Panics (PanicMessage size_message)"
proof -
  have "sint (100 :: go_int) \<noteq> 2 ^ k + 1" for k :: nat
  proof
    assume "sint (100 :: go_int) = 2 ^ k + 1"
    then have "(2 :: int) ^ k = 99" by simp
    then have "even (99 :: int) \<or> k = 0" by (metis even_power dvd_refl gr0I)
    then show False using \<open>(2 :: int) ^ k = 99\<close> by auto
  qed
  then have h: "\<not> (\<exists>k. 1 \<le> k \<and> sint (100 :: go_int) = 2 ^ k + 1)" by blast
  from DiamondSquare_invalid_size_panics [OF h] h show ?thesis by blast
qed

text \<open>
  The call of the repository's own test, \<open>DiamondSquare(100, 0.5, 42)\<close>, panics: the
  function does use a panic, and no error value is returned.
\<close>

theorem DiamondSquare_panics_counterexample:
  "DiamondSquare quarter_source 100 (Finite (1 / 2)) 42 = Panics (PanicMessage size_message)"
  by (simp add: DiamondSquare_def isPowerOfTwoPlusOne_def word_sless_alt)

section \<open>Hypsometric curve: the land fraction\<close>

lemma f_le_Finite: "f_le (Finite a) (Finite b) \<longleftrightarrow> a \<le> b"
  by (auto simp: f_le_def)

lemma f_ge_Finite: "f_ge (Finite a) (Finite b) \<longleftrightarrow> b \<le> a"
  by (simp add: f_ge_def f_le_Finite)

lemma f_gt_Finite: "f_gt (Finite a) (Finite b) \<longleftrightarrow> b < a"
  by (simp add: f_gt_def)

lemma insert_f64_Finite:
  "insert_f64 (Finite x) (map Finite ys) = map Finite (insort x ys)"
  by (induction ys) (auto simp: Float64Slice_Less_def)

lemma Float64s_Finite: "Float64s (map Finite xs) = map Finite (sort xs)"
proof -
  have "foldr insert_f64 (map Finite xs) [] = map Finite (foldr insort xs [])"
    by (induction xs) (simp_all add: insert_f64_Finite)
  then show ?thesis by (simp add: Float64s_def sort_key_def)
qed

lemma filter_above_nth_sorted:
  fixes ys :: "real list"
  assumes "sorted ys" and "k < length ys" and "length (filter (\<lambda>v. v = ys ! k) ys) = 1"
  shows "filter (\<lambda>v. ys ! k < v) ys = drop (Suc k) ys"
proof -
  define t where "t = ys ! k"
  have split: "ys = take k ys @ t # drop (Suc k) ys"
    unfolding t_def using assms(2) by (rule id_take_nth_drop)
  have s: "sorted (take k ys @ t # drop (Suc k) ys)"
    using assms(1) split by simp
  have "length (filter (\<lambda>v. v = t) (take k ys @ t # drop (Suc k) ys)) = 1"
    using assms(3) split by (simp add: t_def)
  then have "filter (\<lambda>v. v = t) (drop (Suc k) ys) = []" by simp
  then have once: "\<forall>x \<in> set (drop (Suc k) ys). x \<noteq> t"
    by (simp add: filter_empty_conv)
  have low: "\<forall>x \<in> set (take k ys). \<not> t < x"
    using s by (auto simp: sorted_append)
  have high: "\<forall>x \<in> set (drop (Suc k) ys). t < x"
  proof
    fix x
    assume x: "x \<in> set (drop (Suc k) ys)"
    then have "t \<le> x" using s by (auto simp: sorted_append)
    moreover have "x \<noteq> t" using once x by blast
    ultimately show "t < x" by simp
  qed
  have "filter (\<lambda>v. t < v) (take k ys @ t # drop (Suc k) ys) = drop (Suc k) ys"
    using low high by (simp add: filter_empty_conv filter_id_conv)
  moreover have "filter (\<lambda>v. t < v) ys = filter (\<lambda>v. t < v) (take k ys @ t # drop (Suc k) ys)"
    using split by (rule arg_cong)
  ultimately show ?thesis unfolding t_def by (rule trans [rotated])
qed

lemma count_above_nth_sort:
  fixes xs :: "real list"
  assumes "k < length xs" and "length (filter (\<lambda>v. v = sort xs ! k) xs) = 1"
  shows "length (filter (\<lambda>v. sort xs ! k < v) xs) = length xs - 1 - k"
proof -
  have "length (filter (\<lambda>v. v = sort xs ! k) (sort xs)) = 1"
    using assms(2) by (simp only: filter_sort length_sort)
  then have "filter (\<lambda>v. sort xs ! k < v) (sort xs) = drop (Suc k) (sort xs)"
    using assms(1) by (intro filter_above_nth_sorted) simp_all
  moreover have "length (filter (\<lambda>v. sort xs ! k < v) xs) =
        length (filter (\<lambda>v. sort xs ! k < v) (sort xs))"
    by (simp only: filter_sort length_sort)
  ultimately show ?thesis by simp
qed

text \<open>The rounding of a value that is not negative, and of a value that is at least a power of two.\<close>

lemma round_f64_at_least:
  assumes "2 powi j \<le> x" and "- 1074 \<le> j"
  shows "at_least (2 powi j) (round_f64 x)"
proof -
  have v: "2 powi j \<le> f64_value x" using assms by (rule f64_value_ge_powi)
  have "0 < (2 :: real) powi j" by simp
  then have "0 < x" using assms(1) by linarith
  then show ?thesis using v by (simp add: round_f64_def inf_of_sign_def)
qed

lemma round_f64_nonneg:
  assumes "0 \<le> x"
  shows "at_least 0 (round_f64 x)"
  using f64_value_nonneg [OF assms] assms by (simp add: round_f64_def inf_of_sign_def)

lemma round_f64_between:
  assumes "0 \<le> x" and "x \<le> 2 powi k" and "- 1074 \<le> k" and "k \<le> 1023"
  shows "\<exists>y. round_f64 x = Finite y \<and> 0 \<le> y \<and> y \<le> 2 powi k"
proof -
  have "\<bar>x\<bar> \<le> 2 powi k" using assms by simp
  then have "round_f64 x = Finite (f64_value x)" using assms(4) by (rule round_f64_Finite)
  moreover have "0 \<le> f64_value x" using assms(1) by (rule f64_value_nonneg)
  moreover have "f64_value x \<le> 2 powi k" using assms(2,3) by (rule f64_value_le_powi)
  ultimately show ?thesis by blast
qed

text \<open>A cell at or below the threshold never becomes positive.\<close>

lemma at_least_cases:
  assumes "at_least c a"
  obtains "a = PosInf" | y where "a = Finite y" "c \<le> y"
  using assms by (cases a) simp_all

lemma hypsometric_cell_ocean:
  assumes "v \<le> t"
  shows "\<not> f_gt (hypsometric_cell (Finite t) (Finite v)) (Finite 0)"
proof -
  define ratio where "ratio = f_div (Finite v) (Finite t)"
  define ratio' where "ratio' = (if f_lt ratio (Finite 0) then Finite 0 else ratio)"
  have r: "ratio' = NaN \<or> at_least 0 ratio'"
    unfolding ratio'_def by (cases ratio) auto
  have p: "math_Pow ratio' 3 = NaN \<or> at_least 0 (math_Pow ratio' 3)"
  proof -
    consider "ratio' = NaN" | "ratio' = PosInf" | y where "ratio' = Finite y" "0 \<le> y"
      using r at_least_cases by blast
    then show ?thesis
    proof cases
      case 1
      then show ?thesis by (simp add: math_Pow_def)
    next
      case 2
      then show ?thesis by (simp add: math_Pow_def)
    next
      case 3
      show ?thesis
      proof (cases "y = 0")
        case True
        then show ?thesis using 3 by (simp add: math_Pow_def)
      next
        case False
        then have "0 \<le> y powr 3" by simp
        then have "at_least 0 (round_f64 (y powr 3))" by (rule round_f64_nonneg)
        then show ?thesis using 3 False by (simp add: math_Pow_def)
      qed
    qed
  qed
  have d: "f_mul (math_Pow ratio' 3) (Finite 6000) = NaN
      \<or> at_least 0 (f_mul (math_Pow ratio' 3) (Finite 6000))"
  proof -
    consider "math_Pow ratio' 3 = NaN" | "math_Pow ratio' 3 = PosInf"
      | y where "math_Pow ratio' 3 = Finite y" "0 \<le> y"
      using p at_least_cases by blast
    then show ?thesis
    proof cases
      case 1
      then show ?thesis by simp
    next
      case 2
      then show ?thesis by (simp add: inf_of_sign_def)
    next
      case 3
      then have "0 \<le> y * 6000" by simp
      then have "at_least 0 (round_f64 (y * 6000))" by (rule round_f64_nonneg)
      then show ?thesis using 3 by simp
    qed
  qed
  have "hypsometric_cell (Finite t) (Finite v) = f_neg (f_mul (math_Pow ratio' 3) (Finite 6000))"
    using assms by (simp add: hypsometric_cell_def f_le_Finite Let_def ratio'_def ratio_def)
  moreover have "\<not> f_gt (f_neg (f_mul (math_Pow ratio' 3) (Finite 6000))) (Finite 0)"
    using d by (cases "f_mul (math_Pow ratio' 3) (Finite 6000)") (auto simp: f_gt_def)
  ultimately show ?thesis by simp
qed

text \<open>
  A cell that is above the threshold by at least \<open>2\<^sup>-\<^sup>1\<^sup>0\<^sup>0\<close> becomes positive, when the
  threshold is below one and not below \<open>- 2\<^sup>3\<^sup>0\<^sup>0\<close>: no intermediate result is rounded to
  zero.
\<close>

lemma powi2_powr: "(2 :: real) powi n = 2 powr real_of_int n"
  by (simp add: powr_real_of_int')

lemma hypsometric_cell_land:
  assumes gap: "t + 2 powi (- 100) \<le> v" and lo: "- (2 powi 300) \<le> t" and hi: "t < 1"
  shows "f_gt (hypsometric_cell (Finite t) (Finite v)) (Finite 0)"
proof -
  have p100: "0 < (2 :: real) powi (- 100)" by simp
  have tv: "t < v" using gap p100 by linarith
  define a where "a = f_sub (Finite v) (Finite t)"
  have a: "at_least (2 powi (- 100)) a"
  proof -
    have "2 powi (- 100) \<le> v - t" using gap by linarith
    then have "at_least (2 powi (- 100)) (round_f64 (v - t))"
      by (rule round_f64_at_least) simp
    then show ?thesis by (simp add: a_def f_sub_def)
  qed
  have "(1 :: real) \<le> 2 powi 300" by (intro one_le_power_int) simp_all
  then have "1 - t \<le> 2 powi 300 + 2 powi 300" using lo by linarith
  also have "\<dots> = 2 powi 301" using powi2_add [of 1 300] by simp
  finally have "1 - t \<le> 2 powi 301" .
  moreover have "0 \<le> 1 - t" using hi by linarith
  ultimately obtain b where b: "round_f64 (1 - t) = Finite b" "0 \<le> b" "b \<le> 2 powi 301"
    using round_f64_between [of "1 - t" 301] by auto
  have fb: "f_sub (Finite 1) (Finite t) = Finite b"
    by (simp add: f_sub_def b(1))
  define ratio where "ratio = f_div a (Finite b)"
  have ratio: "at_least (2 powi (- 401)) ratio"
  proof -
    from a consider "a = PosInf" | y where "a = Finite y" "2 powi (- 100) \<le> y"
      by (rule at_least_cases)
    then show ?thesis
    proof cases
      case 1
      then show ?thesis using b(2) by (simp add: ratio_def inf_of_sign_def)
    next
      case 2
      show ?thesis
      proof (cases "b = 0")
        case True
        then show ?thesis using 2 p100 by (simp add: ratio_def inf_of_sign_def)
      next
        case False
        then have bpos: "0 < b" using b(2) by simp
        have "2 powi (- 401) = 2 powi (- 100) / (2 :: real) powi 301"
          by (simp add: powi2_diff)
        also have "\<dots> \<le> y / 2 powi 301"
          using 2(2) by (intro divide_right_mono) simp_all
        also have "\<dots> \<le> y / b"
          using b(3) bpos 2(2) p100 by (intro divide_left_mono) simp_all
        finally have "2 powi (- 401) \<le> y / b" .
        then have "at_least (2 powi (- 401)) (round_f64 (y / b))"
          by (rule round_f64_at_least) simp
        then show ?thesis using 2 False by (simp add: ratio_def)
      qed
    qed
  qed
  define ratio' where "ratio' = (if f_gt ratio (Finite 1) then Finite 1 else ratio)"
  have p401: "0 < (2 :: real) powi (- 401)" by simp
  have "(2 :: real) powi (- 401) \<le> 2 powi 0" by (intro power_int_increasing) simp_all
  then have p401': "(2 :: real) powi (- 401) \<le> 1" by simp
  obtain r where r: "ratio' = Finite r" "2 powi (- 401) \<le> r" "r \<le> 1"
  proof -
    from ratio consider "ratio = PosInf" | y where "ratio = Finite y" "2 powi (- 401) \<le> y"
      by (rule at_least_cases)
    then show ?thesis
    proof cases
      case 1
      then have "ratio' = Finite 1" by (simp add: ratio'_def f_gt_def)
      then show ?thesis using p401' that by blast
    next
      case 2
      show ?thesis
      proof (cases "1 < y")
        case True
        then have "ratio' = Finite 1" using 2 by (simp add: ratio'_def f_gt_def)
        then show ?thesis using p401' that by blast
      next
        case False
        then have "ratio' = Finite y" using 2 by (simp add: ratio'_def f_gt_def)
        then show ?thesis using 2(2) False that by auto
      qed
    qed
  qed
  have rpos: "0 < r" using r(2) p401 by linarith
  have low: "2 powi (- 1003) \<le> r powr (5 / 2)"
  proof -
    have "(2 :: real) powi (- 1003) = 2 powr (- 1003)"
      using powi2_powr [of "- 1003"] by (simp only: of_int_minus of_int_numeral)
    also have "\<dots> \<le> 2 powr (- 401 * (5 / 2))"
      by (intro powr_mono) simp_all
    also have "\<dots> = (2 powr (- 401)) powr (5 / 2)"
      by (simp only: powr_powr)
    also have "\<dots> = (2 powi (- 401)) powr (5 / 2)"
      using powi2_powr [of "- 401"] by (simp only: of_int_minus of_int_numeral)
    also have "\<dots> \<le> r powr (5 / 2)"
      using r(2) by (intro powr_mono2) simp_all
    finally show ?thesis .
  qed
  have up: "r powr (5 / 2) \<le> 2 powi 0"
  proof -
    have "r powr (5 / 2) \<le> 1 powr (5 / 2)"
      using r(3) rpos by (intro powr_mono2) simp_all
    then show ?thesis by simp
  qed
  have "\<bar>r powr (5 / 2)\<bar> \<le> 2 powi 0" using up by simp
  then have pf: "round_f64 (r powr (5 / 2)) = Finite (f64_value (r powr (5 / 2)))"
    by (rule round_f64_Finite) simp
  define p where "p = f64_value (r powr (5 / 2))"
  have p: "2 powi (- 1003) \<le> p" unfolding p_def using low by (rule f64_value_ge_powi) simp
  have pow: "math_Pow ratio' (5 / 2) = Finite p"
    using rpos by (simp add: math_Pow_def r(1) pf p_def)
  have "0 < (2 :: real) powi (- 1003)" by simp
  then have "0 \<le> p" using p by linarith
  then have "p * 1 \<le> p * 8800" by (intro mult_left_mono) simp_all
  then have "2 powi (- 1003) \<le> p * 8800" using p by simp
  then have h: "at_least (2 powi (- 1003)) (round_f64 (p * 8800))"
    by (rule round_f64_at_least) simp
  have cell: "hypsometric_cell (Finite t) (Finite v) = round_f64 (p * 8800)"
    using tv by (simp add: hypsometric_cell_def f_le_Finite Let_def fb pow
                   flip: a_def ratio_def ratio'_def)
  from h consider "round_f64 (p * 8800) = PosInf"
    | y where "round_f64 (p * 8800) = Finite y" "2 powi (- 1003) \<le> y"
    by (rule at_least_cases)
  then show ?thesis
  proof cases
    case 1
    then show ?thesis by (simp add: cell f_gt_def)
  next
    case 2
    have "0 < (2 :: real) powi (- 1003)" by simp
    then have "0 < y" using 2(2) by linarith
    then show ?thesis by (simp add: cell 2(1) f_gt_def)
  qed
qed

lemma sint_of_nat_64:
  assumes "int n < 2 ^ 63"
  shows "sint (of_nat n :: go_int) = int n"
proof -
  have "(of_nat n :: go_int) = word_of_int (int n)" by simp
  moreover have "sint (word_of_int (int n) :: go_int) = int n"
    using assms by (intro sint_word_of_int_64) simp_all
  ultimately show ?thesis by simp
qed

lemma f64_value_rel_error:
  "\<bar>f64_value x - x\<bar> \<le> \<bar>x\<bar> / 2 ^ 53 + 2 powi (- 1075)"
proof (cases "x = 0")
  case True
  then show ?thesis by (simp add: f64_value_def)
next
  case False
  show ?thesis
  proof (cases "- 1022 \<le> binade x")
    case True
    have "\<bar>f64_value x - x\<bar> \<le> 2 powi (binade x - 53)"
    proof -
      define q :: real where "q = 2 powi (binade x - 52)"
      have qpos: "0 < q" by (simp add: q_def)
      have v: "f64_value x = real_of_int (round_even (x / q)) * q"
        using False True by (simp add: f64_value_def q_def max_def)
      have "f64_value x - x = (real_of_int (round_even (x / q)) - x / q) * q"
        using qpos by (simp add: v algebra_simps)
      then have "\<bar>f64_value x - x\<bar> = \<bar>real_of_int (round_even (x / q)) - x / q\<bar> * q"
        using qpos by (simp add: abs_mult)
      also have "\<dots> \<le> 1 / 2 * q"
        using round_even_bounds [of "x / q"] qpos by (intro mult_right_mono) linarith+
      also have "\<dots> = 2 powi (binade x - 53)"
        using powi2_add [of "- 1" "binade x - 52"] by (simp add: q_def ac_simps)
      finally show ?thesis .
    qed
    also have "(2 :: real) powi (binade x - 53) = 2 powi (binade x) / 2 powi 53"
      by (simp only: powi2_diff)
    also have "\<dots> \<le> \<bar>x\<bar> / 2 powi 53"
      using binade_bounds(1) [OF False] by (intro divide_right_mono) simp_all
    also have "(2 :: real) powi 53 = 2 ^ 53" by (simp add: power_int_def)
    finally have "\<bar>f64_value x - x\<bar> \<le> \<bar>x\<bar> / 2 ^ 53" .
    moreover have "0 \<le> (2 :: real) powi (- 1075)" by simp
    ultimately show ?thesis by linarith
  next
    case low: False
    have "\<bar>x\<bar> < 2 powi (binade x + 1)" using False by (rule binade_bounds)
    also have "\<dots> \<le> 2 powi (- 1022)"
      using low by (intro power_int_increasing) simp_all
    finally have "\<bar>x\<bar> \<le> 2 powi (- 1022)" by simp
    then have "\<bar>f64_value x - x\<bar> \<le> 2 powi (- 1022 - 53)"
      by (rule f64_value_abs_error) simp
    moreover have "(- 1022 - 53 :: int) = - 1075" by simp
    ultimately have "\<bar>f64_value x - x\<bar> \<le> 2 powi (- 1075)" by (simp only:)
    moreover have "0 \<le> \<bar>x\<bar> / 2 ^ 53" by simp
    ultimately show ?thesis by linarith
  qed
qed

text \<open>
  The index of the threshold for \<open>N\<close> elevations, \<open>0 < N < 2\<^sup>5\<^sup>3\<close>, and a target land ratio
  \<open>l\<close> between 0 and 1: the integer part of the rounded product \<open>P\<close> of \<open>N\<close> and the rounded
  \<open>1 - l\<close>, or \<open>N - 1\<close> when that is \<open>N\<close>.
\<close>

lemma seaLevelIndex_value:
  fixes l :: real
  assumes N: "0 < length elevations" "int (length elevations) < 2 ^ 53" and l: "0 < l" "l < 1"
  defines "P \<equiv> f64_value (real (length elevations) * f64_value (1 - l))"
  shows "sint (seaLevelIndex elevations (Finite l)) =
           (if int (length elevations) \<le> \<lfloor>P\<rfloor> then int (length elevations) - 1 else \<lfloor>P\<rfloor>)"
    and "0 \<le> P" and "P \<le> real (length elevations)"
proof -
  define n where "n = length elevations"
  define u where "u = f64_value (1 - l)"
  have n63: "int n < 2 ^ 63" using N(2) by (simp add: n_def)
  have sn: "sint (len elevations) = int n"
    unfolding len_def n_def using n63 [unfolded n_def] by (rule sint_of_nat_64)
  have fn: "f_of_int (len elevations) = Finite (real n)"
  proof -
    have "\<bar>int n\<bar> < 2 ^ 53" using N(2) by (simp add: n_def)
    then have "round_f64 (real_of_int (int n)) = Finite (real_of_int (int n))"
      by (rule round_f64_of_int)
    then show ?thesis by (simp add: f_of_int_def sn)
  qed
  have "0 \<le> 1 - l" "1 - l \<le> 2 powi 0" using l by simp_all
  then obtain u' where u': "round_f64 (1 - l) = Finite u'" "0 \<le> u'" "u' \<le> 2 powi 0"
    using round_f64_between [of "1 - l" 0] by auto
  have "\<bar>1 - l\<bar> \<le> 2 powi 0" using l by simp
  then have "round_f64 (1 - l) = Finite u" unfolding u_def by (rule round_f64_Finite) simp
  then have u: "round_f64 (1 - l) = Finite u" "0 \<le> u" "u \<le> 1" using u' by simp_all
  have fu: "f_sub (Finite 1) (Finite l) = Finite u"
    by (simp add: f_sub_def u(1))
  have nu: "0 \<le> real n * u" "real n * u \<le> real n"
    using u(2,3) by (simp_all add: mult_left_le)
  have n53: "real n \<le> 2 powi 53"
  proof -
    have "real_of_int (int n) \<le> real_of_int (2 ^ 53)" using N(2) unfolding n_def by linarith
    then show ?thesis by (simp add: power_int_def)
  qed
  have P: "P = f64_value (real n * u)" by (simp add: P_def n_def u_def)
  have "\<bar>real n * u\<bar> \<le> 2 powi 53" using nu n53 by linarith
  then have fm: "round_f64 (real n * u) = Finite P" unfolding P by (rule round_f64_Finite) simp
  show P0: "0 \<le> P" unfolding P using nu(1) by (rule f64_value_nonneg)
  have "f64_value (real n) = real n"
  proof (rule f64_value_exact [where m = "int n" and k = 0])
    show "real n = real_of_int (int n) * 2 powi 0" by simp
    show "\<bar>int n\<bar> < 2 ^ 53" using N(2) by (simp add: n_def)
  qed simp
  then have Pn: "P \<le> real n" unfolding P using f64_value_mono [OF nu(2)] by simp
  then show "P \<le> real (length elevations)" by (simp add: n_def)
  have "\<lfloor>P\<rfloor> \<le> \<lfloor>real n\<rfloor>" using Pn by (rule floor_mono)
  then have fl: "0 \<le> \<lfloor>P\<rfloor>" "\<lfloor>P\<rfloor> \<le> int n"
    using P0 by simp_all
  have tr: "truncate_real P = \<lfloor>P\<rfloor>" using P0 by (simp add: truncate_real_def)
  have fl63: "- (2 ^ 63) \<le> \<lfloor>P\<rfloor>" "\<lfloor>P\<rfloor> < 2 ^ 63" using fl n63 by linarith+
  have ti: "f_to_int (Finite P) = word_of_int \<lfloor>P\<rfloor>"
    using fl63 by (simp add: f_to_int_def tr)
  have si: "sint (word_of_int \<lfloor>P\<rfloor> :: go_int) = \<lfloor>P\<rfloor>"
    using fl63 by (intro sint_word_of_int_64) simp_all
  have idx: "seaLevelIndex elevations (Finite l) =
      (if int n \<le> \<lfloor>P\<rfloor> then len elevations - 1 else word_of_int \<lfloor>P\<rfloor>)"
    by (simp add: seaLevelIndex_def fn fu fm ti Let_def word_sle_eq sn si)
  have "len elevations - 1 = (word_of_int (int n - 1) :: go_int)"
    by (simp add: len_def n_def)
  moreover have "sint (word_of_int (int n - 1) :: go_int) = int n - 1"
  proof -
    have "int n < 9223372036854775808" using n63 by simp
    then show ?thesis by (intro sint_word_of_int_64) linarith+
  qed
  ultimately have "sint (len elevations - 1) = int n - 1" by simp
  then show "sint (seaLevelIndex elevations (Finite l)) =
           (if int (length elevations) \<le> \<lfloor>P\<rfloor> then int (length elevations) - 1 else \<lfloor>P\<rfloor>)"
    by (simp add: idx si n_def)
qed

text \<open>
  Claim C2, as the code has it. Take a heightmap with \<open>N\<close> finite cells, \<open>0 < N < 2\<^sup>5\<^sup>3\<close>, and
  a target land ratio \<open>L\<close> strictly between 0 and 1. Let \<open>k\<close> be the index that the code
  computes, \<open>int(float64(N) * (1.0 - L))\<close> in binary64 arithmetic (\<open>N - 1\<close> when that is
  \<open>N\<close>), and \<open>t\<close> the threshold, the value of rank \<open>k\<close>. If \<open>t\<close> is the value of one cell
  only, is below 1 and not below \<open>- 2\<^sup>3\<^sup>0\<^sup>0\<close>, and every cell above \<open>t\<close> is above it by at least
  \<open>2\<^sup>-\<^sup>1\<^sup>0\<^sup>0\<close> (so that no intermediate result is rounded to zero), then
  \<open>ApplyHypsometricCurve\<close> returns a heightmap in which exactly \<open>N - 1 - k\<close> cells are above
  zero, the cells above the threshold. That count differs from \<open>L N\<close> by at most
  \<open>1 + N / 2\<^sup>5\<^sup>1\<close>: by 1, but for the rounding of the product.
\<close>

theorem land_cells_above_unique_threshold:
  fixes hm :: "real list list" and l :: real
  assumes n: "0 < length (concat hm)" "int (length (concat hm)) < 2 ^ 53"
    and l: "0 < l" "l < 1"
    and k: "k = nat (sint (seaLevelIndex (Float64s (concat (map (map Finite) hm))) (Finite l)))"
    and t: "t = sort (concat hm) ! k"
    and once: "length (filter (\<lambda>v. v = t) (concat hm)) = 1"
    and range: "- (2 powi 300) \<le> t" "t < 1"
    and gap: "\<forall>v \<in> set (concat hm). t < v \<longrightarrow> t + 2 powi (- 100) \<le> v"
  shows "\<exists>result.
           ApplyHypsometricCurve (map (map Finite) hm) (Finite l) = Returned result
         \<and> land_cells result = length (concat hm) - 1 - k
         \<and> \<bar>real (land_cells result) - l * real (length (concat hm))\<bar>
             \<le> 1 + real (length (concat hm)) / 2 ^ 51"
proof -
  define xs where "xs = concat hm"
  define N where "N = length xs"
  define u where "u = f64_value (1 - l)"
  define P where "P = f64_value (real N * u)"
  have cc: "concat (map (map Finite) hm) = map Finite xs"
    by (simp add: xs_def map_concat)
  have el: "Float64s (concat (map (map Finite) hm)) = map Finite (sort xs)"
    by (simp only: cc Float64s_Finite)
  have Npos: "0 < N" and Nsmall: "int N < 2 ^ 53"
    using n by (simp_all add: N_def xs_def)
  have len: "length (map Finite (sort xs)) = N" by (simp add: N_def)
  have idx: "sint (seaLevelIndex (map Finite (sort xs)) (Finite l)) =
      (if int N \<le> \<lfloor>P\<rfloor> then int N - 1 else \<lfloor>P\<rfloor>)"
    and P0: "0 \<le> P" and PN: "P \<le> real N"
    using seaLevelIndex_value [of "map Finite (sort xs)" l] Npos Nsmall l
    by (simp_all only: len P_def u_def)
  have fl0: "0 \<le> \<lfloor>P\<rfloor>" using P0 by simp
  have kk: "int k = (if int N \<le> \<lfloor>P\<rfloor> then int N - 1 else \<lfloor>P\<rfloor>)"
    using k fl0 Npos unfolding el idx by simp
  have kN: "k < N" using kk Npos by (auto split: if_splits)
  have sk: "sint (seaLevelIndex (map Finite (sort xs)) (Finite l)) = int k"
    by (simp only: idx kk)
  have T: "sort xs ! k = t" by (simp add: t xs_def)
  have ix: "index (map Finite (sort xs)) (seaLevelIndex (map Finite (sort xs)) (Finite l)) =
      Returned (Finite t)"
    using kN by (simp add: index_def sk N_def T)
  have guard: "\<not> (f_le (Finite l) (Finite 0) \<or> f_ge (Finite l) (Finite 1))"
    using l by (simp add: f_le_Finite f_ge_Finite)
  define result where "result = map (map (hypsometric_cell (Finite t))) (map (map Finite) hm)"
  have app: "ApplyHypsometricCurve (map (map Finite) hm) (Finite l) = Returned result"
    unfolding ApplyHypsometricCurve_def el Let_def
    using guard by (simp add: ix result_def)
  have cr: "concat result = map (\<lambda>v. hypsometric_cell (Finite t) (Finite v)) xs"
    by (simp add: result_def xs_def map_concat comp_def)
  have cell: "f_gt (hypsometric_cell (Finite t) (Finite v)) (Finite 0) \<longleftrightarrow> t < v"
    if "v \<in> set xs" for v
  proof (cases "t < v")
    case True
    then have "t + 2 powi (- 100) \<le> v" using that gap unfolding xs_def by blast
    then show ?thesis using True range by (simp add: hypsometric_cell_land)
  next
    case False
    then have "v \<le> t" by simp
    then show ?thesis using False by (simp add: hypsometric_cell_ocean)
  qed
  have "land_cells result =
      length (filter (\<lambda>v. f_gt (hypsometric_cell (Finite t) (Finite v)) (Finite 0)) xs)"
    by (simp add: land_cells_def cr filter_map comp_def)
  also have "\<dots> = length (filter (\<lambda>v. t < v) xs)"
    using cell by (metis (mono_tags, lifting) filter_cong)
  also have "\<dots> = length (filter (\<lambda>v. sort xs ! k < v) xs)"
    by (simp only: T)
  also have "\<dots> = N - 1 - k"
  proof -
    have "length (filter (\<lambda>v. v = sort xs ! k) xs) = 1"
      unfolding T using once by (simp add: xs_def)
    then show ?thesis
      using kN unfolding N_def by (intro count_above_nth_sort)
  qed
  finally have count: "land_cells result = N - 1 - k" .
  have e1: "\<bar>u - (1 - l)\<bar> \<le> 2 powi (- 53)"
  proof -
    have "\<bar>1 - l\<bar> \<le> 2 powi 0" using l by simp
    then have "\<bar>f64_value (1 - l) - (1 - l)\<bar> \<le> 2 powi (0 - 53)"
      by (rule f64_value_abs_error) simp
    then show ?thesis by (simp add: u_def)
  qed
  have p53: "(2 :: real) powi (- 53) = 1 / 2 ^ 53" by (simp add: power_int_minus)
  have u01: "0 \<le> u" "u \<le> 1"
  proof -
    show "0 \<le> u" unfolding u_def using l by (intro f64_value_nonneg) simp
    have "1 - l \<le> 2 powi 0" using l by simp
    then have "f64_value (1 - l) \<le> 2 powi 0" by (rule f64_value_le_powi) simp
    then show "u \<le> 1" by (simp add: u_def)
  qed
  have e2: "\<bar>P - real N * u\<bar> \<le> real N / 2 ^ 53 + 2 powi (- 1075)"
  proof -
    have "\<bar>P - real N * u\<bar> \<le> \<bar>real N * u\<bar> / 2 ^ 53 + 2 powi (- 1075)"
      unfolding P_def by (rule f64_value_rel_error)
    moreover have "\<bar>real N * u\<bar> \<le> real N" using u01 by (simp add: abs_mult mult_left_le)
    then have "\<bar>real N * u\<bar> / 2 ^ 53 \<le> real N / 2 ^ 53" by (intro divide_right_mono) simp_all
    ultimately show ?thesis by linarith
  qed
  have tiny: "(2 :: real) powi (- 1075) \<le> real N / 2 ^ 52"
  proof -
    have "(2 :: real) powi (- 1075) \<le> 2 powi (- 52)" by (intro power_int_increasing) simp_all
    also have "\<dots> = 1 / 2 ^ 52" by (simp add: power_int_minus)
    also have "\<dots> \<le> real N / 2 ^ 52" using Npos by (intro divide_right_mono) simp_all
    finally show ?thesis .
  qed
  have "real N * \<bar>u - (1 - l)\<bar> \<le> real N * (1 / 2 ^ 53)"
    using e1 unfolding p53 by (intro mult_left_mono) simp_all
  moreover have "real N * u - real N * (1 - l) = real N * (u - (1 - l))"
    by (simp only: right_diff_distrib)
  then have "\<bar>real N * u - real N * (1 - l)\<bar> = real N * \<bar>u - (1 - l)\<bar>"
    by (simp only: abs_mult abs_of_nat)
  ultimately have "\<bar>real N * u - real N * (1 - l)\<bar> \<le> real N / 2 ^ 53"
    by simp
  then have "\<bar>P - real N * (1 - l)\<bar> \<le> real N / 2 ^ 53 + real N / 2 ^ 53 + real N / 2 ^ 52"
    using e2 tiny by linarith
  moreover have "real N / 2 ^ 53 + real N / 2 ^ 53 + real N / 2 ^ 52 = real N / 2 ^ 51"
    by simp
  ultimately have err: "\<bar>P - real N * (1 - l)\<bar> \<le> real N / 2 ^ 51" by simp
  have prod: "real N * (1 - l) = real N - l * real N" by (simp add: algebra_simps)
  have bound: "\<bar>real (N - 1 - k) - l * real N\<bar> \<le> 1 + real N / 2 ^ 51"
  proof (cases "int N \<le> \<lfloor>P\<rfloor>")
    case True
    then have "k = N - 1" using kk Npos by simp
    then have c0: "real (N - 1 - k) = 0" by simp
    have "real N \<le> P" using True by (simp add: le_floor_iff)
    then have "l * real N \<le> real N / 2 ^ 51" using err prod by linarith
    moreover have "0 \<le> l * real N" using l by simp
    moreover have "0 \<le> real N / 2 ^ 51" by simp
    ultimately show ?thesis unfolding c0 by linarith
  next
    case False
    then have kP: "int k = \<lfloor>P\<rfloor>" using kk by simp
    have rk: "real k = real_of_int \<lfloor>P\<rfloor>" unfolding kP [symmetric] by simp
    have kb: "real k \<le> P" "P < real k + 1" unfolding rk by linarith+
    have "real (N - 1 - k) = real N - 1 - real k" using kN by simp
    then show ?thesis using kb err prod by linarith
  qed
  show ?thesis
    using app count bound by (auto simp: N_def xs_def)
qed

lemma seaLevelIndex_test:
  "seaLevelIndex (Float64s (concat (map (map Finite) test_ramp))) (Finite test_land_ratio) = 6"
  by code_simp

theorem land_cells_above_unique_threshold_witness:
  "0 < length (concat test_ramp) \<and> int (length (concat test_ramp)) < 2 ^ 53
   \<and> 0 < test_land_ratio \<and> test_land_ratio < 1
   \<and> (6 :: nat) = nat (sint (seaLevelIndex (Float64s (concat (map (map Finite) test_ramp)))
                              (Finite test_land_ratio)))
   \<and> (1 / 2 :: real) = sort (concat test_ramp) ! 6
   \<and> length (filter (\<lambda>v. v = 1 / 2) (concat test_ramp)) = 1
   \<and> - (2 powi 300) \<le> (1 / 2 :: real) \<and> (1 / 2 :: real) < 1
   \<and> list_all (\<lambda>v. 1 / 2 < v \<longrightarrow> 1 / 2 + 2 powi (- 100) \<le> v) (concat test_ramp)
   \<and> (\<exists>result.
          ApplyHypsometricCurve (map (map Finite) test_ramp) (Finite test_land_ratio)
            = Returned result
        \<and> land_cells result = 3
        \<and> \<bar>real (land_cells result) - test_land_ratio * 10\<bar> \<le> 1 + 10 / 2 ^ 51)"
proof -
  have len: "length (concat test_ramp) = 10"
    by (simp add: test_ramp_def)
  have h1: "0 < length (concat test_ramp)" "int (length (concat test_ramp)) < 2 ^ 53"
    by (simp_all add: len)
  have h2: "0 < test_land_ratio" "test_land_ratio < 1"
    by (simp_all add: test_land_ratio_def)
  have h3: "(6 :: nat) = nat (sint (seaLevelIndex (Float64s (concat (map (map Finite) test_ramp)))
                              (Finite test_land_ratio)))"
    by (simp add: seaLevelIndex_test)
  have h4: "(1 / 2 :: real) = sort (concat test_ramp) ! 6"
    by (simp add: test_ramp_def)
  have h5: "length (filter (\<lambda>v. v = 1 / 2) (concat test_ramp)) = 1"
    by (simp add: test_ramp_def)
  have "(0 :: real) \<le> 2 powi 300" by simp
  then have h6: "- (2 powi 300) \<le> (1 / 2 :: real)" "(1 / 2 :: real) < 1" by simp_all
  have h7: "\<forall>v \<in> set (concat test_ramp). 1 / 2 < v \<longrightarrow> 1 / 2 + 2 powi (- 100) \<le> v"
    by (simp add: test_ramp_def power_int_minus)
  from land_cells_above_unique_threshold [OF h1 h2 h3 h4 h5 h6 h7]
  obtain result where
    "ApplyHypsometricCurve (map (map Finite) test_ramp) (Finite test_land_ratio) = Returned result"
    "land_cells result = length (concat test_ramp) - 1 - 6"
    "\<bar>real (land_cells result) - test_land_ratio * real (length (concat test_ramp))\<bar>
       \<le> 1 + real (length (concat test_ramp)) / 2 ^ 51"
    by blast
  then have "ApplyHypsometricCurve (map (map Finite) test_ramp) (Finite test_land_ratio)
            = Returned result
        \<and> land_cells result = 3
        \<and> \<bar>real (land_cells result) - test_land_ratio * 10\<bar> \<le> 1 + 10 / 2 ^ 51"
    by (simp add: len)
  then have "\<exists>result.
          ApplyHypsometricCurve (map (map Finite) test_ramp) (Finite test_land_ratio)
            = Returned result
        \<and> land_cells result = 3
        \<and> \<bar>real (land_cells result) - test_land_ratio * 10\<bar> \<le> 1 + 10 / 2 ^ 51"
    by blast
  then show ?thesis using h1 h2 h3 h4 h5 h6 h7 by (simp add: list_all_iff)
qed

text \<open>
  Four equal cells and a target land ratio of one half: the threshold is the common value,
  every cell is at the threshold and becomes ocean, and no cell is above zero, two less
  than \<open>L N = 2\<close>.
\<close>

theorem land_cells_ties_counterexample:
  "ApplyHypsometricCurve
     [[Finite (1 / 2), Finite (1 / 2)], [Finite (1 / 2), Finite (1 / 2)]] (Finite (1 / 2))
   = Returned [[Finite (- 6000), Finite (- 6000)], [Finite (- 6000), Finite (- 6000)]]
   \<and> land_cells [[Finite (- 6000), Finite (- 6000)], [Finite (- 6000), Finite (- 6000)]] = 0
   \<and> \<not> \<bar>real (land_cells [[Finite (- 6000), Finite (- 6000)], [Finite (- 6000), Finite (- 6000)]])
          - 1 / 2 * 4\<bar> \<le> 1"
  by (simp add: ApplyHypsometricCurve_def seaLevelIndex_def f_le_def f_ge_def Float64s_def
      Float64Slice_Less_def len_def f_of_int_def f_sub_def f_to_int_def truncate_real_def
      index_def hypsometric_cell_def math_Pow_def f_gt_def word_sle_eq land_cells_def
      round_f64_dyadic)

section \<open>Hypsometric curve: the range of the output\<close>

text \<open>
  Claim C3 fails on the code. On the heightmap \<open>[[-1, -0.5]]\<close> with a target land ratio
  of one half the threshold is \<open>-0.5\<close>; the cell \<open>-1\<close> has the ratio \<open>-1 / -0.5 = 2\<close>,
  which the ocean branch does not cap at 1, and becomes \<open>- 2\<^sup>3 \<sqdot> 6000 = -48000\<close>, below
  \<open>-6000\<close>.
\<close>

theorem ApplyHypsometricCurve_below_depth:
  "ApplyHypsometricCurve [[Finite (- 1), Finite (- (1 / 2))]] (Finite (1 / 2))
     = Returned [[Finite (- 48000), Finite (- 6000)]]
   \<and> f_lt (Finite (- 48000)) (Finite (- 6000))"
  by (simp add: ApplyHypsometricCurve_def seaLevelIndex_def f_le_def f_ge_def Float64s_def
      Float64Slice_Less_def len_def f_of_int_def f_sub_def f_to_int_def truncate_real_def
      index_def hypsometric_cell_def math_Pow_def f_gt_def word_sle_eq round_f64_dyadic)

end
